theory Spec2Isabelle
  imports Main
begin

section \<open>Data model of \<open>app/main.py\<close>\<close>

text \<open>
  Python exceptions that the handler and its helpers can raise. \<open>HTTPException\<close> carries
  the status code and the detail string; \<open>ClientError\<close> stands for any network failure
  raised by \<open>aiohttp\<close> while a GET is performed.
\<close>

datatype error =
    HTTPException int string
  | ClientError
  | KeyError
  | IndexError
  | TypeError
  | ValueError
  | OSError
  | UnboundLocalError
  | UnidentifiedImageError

text \<open>
  A JSON scalar as it is interpolated into a label (\<open>playcount\<close> may arrive as a number
  or as a string). A \<open>char\<close> of a HOL string stands for one character of a Python \<open>str\<close>.
\<close>

datatype jscalar = JInt int | JStr string

record album =
  al_name :: string
  al_artist :: string
  al_playcount :: jscalar
  al_image :: "string list"

record artist =
  ar_name :: string
  ar_playcount :: jscalar

record track =
  tr_name :: string
  tr_artist :: string
  tr_image :: "string list"

text \<open>\<open>recenttracks.track\<close> is a list, or a single object when there is one track.\<close>

datatype tracks = TrackList "track list" | TrackDict track

text \<open>
  The decoded body of the statistics provider: the optional \<open>error\<close> and \<open>message\<close> keys
  and the three containers the code reads. A missing key is \<open>None\<close>.
\<close>

record content =
  c_error :: "int option"
  c_message :: "string option"
  c_topalbums :: "album list option"
  c_topartists :: "artist list option"
  c_recenttracks :: "tracks option"

text \<open>A decodable raster image: its size and an identifier of its pixels.\<close>

record picture =
  pic_width :: int
  pic_height :: int
  pic_data :: string

text \<open>
  What a GET can deliver: a JSON document, an HTML listing page given by its
  \<open>td.chartlist-image\<close> cells in document order (each with the \<open>src\<close> of its first
  \<open>img\<close>, or \<open>None\<close> when there is none), the bytes of an image, or anything else.
\<close>

datatype payload =
    JsonBody content
  | HtmlBody "string option list"
  | ImageBody picture
  | OtherBody string

datatype response = NetErr | Resp int payload

datatype pval = PStr string | PInt int

type_synonym request = "string \<times> (string \<times> pval) list"

text \<open>
  The network answers the \<open>n\<close>-th GET of a request (counted from 0) for a given URL and
  parameters. The world records every GET issued, and every invocation of \<open>get_img\<close>.
\<close>

type_synonym network = "nat \<Rightarrow> request \<Rightarrow> response"

record world =
  calls :: "request list"
  fetched :: "string list"

type_synonym 'a io = "world \<Rightarrow> (error + 'a) \<times> world"

record tile =
  t_image :: picture
  t_anchor :: "int \<times> int"
  t_text :: string
  t_name :: string

record paste =
  p_box :: "int \<times> int \<times> int \<times> int"
  p_tile :: tile

record canvas =
  cv_size :: "int \<times> int"
  cv_pastes :: "paste list"

record webfile =
  f_format :: string
  f_name :: string
  f_size :: "int \<times> int"
  f_resized :: bool
  f_pastes :: "paste list"

record streaming_response =
  sr_content :: webfile
  sr_media_type :: string
  sr_status_code :: int

section \<open>Constants\<close>

definition DATATYPES :: "(string \<times> string) list" where
  "DATATYPES =
     [(''albums'', ''user.gettopalbums''),
      (''artists'', ''user.gettopartists''),
      (''recenttracks'', ''user.getrecenttracks'')]"

definition NO_IMAGE_PLACEHOLDER :: string where
  "NO_IMAGE_PLACEHOLDER =
     ''https://lastfm.freetls.fastly.net/i/u/300x300/2a96cbd8b46e442fc41c2b86b821562f.png''"

definition period_format_map :: "(string \<times> string) list" where
  "period_format_map =
     [(''7day'', ''LAST_7_DAYS''),
      (''1month'', ''LAST_30_DAYS''),
      (''3month'', ''LAST_90_DAYS''),
      (''6month'', ''LAST_180_DAYS''),
      (''12month'', ''LAST_365_DAYS''),
      (''overall'', ''ALL'')]"

definition nl :: char where
  "nl = CHR 0x0A"

section \<open>Python primitives\<close>

text \<open>\<open>xs[:n]\<close>: a negative bound counts from the end.\<close>

definition py_take :: "int \<Rightarrow> 'a list \<Rightarrow> 'a list" where
  "py_take n xs = (if 0 \<le> n then take (nat n) xs else take (length xs - nat (- n)) xs)"

text \<open>\<open>k in d\<close>, for the value \<open>v\<close> that the dictionary holds at \<open>k\<close>, if any.\<close>

definition has_key :: "'a option \<Rightarrow> bool" where
  "has_key v = (case v of None \<Rightarrow> False | Some _ \<Rightarrow> True)"

text \<open>\<open>xs[i]\<close> for an index \<open>i \<ge> 0\<close>.\<close>

definition py_index :: "'a list \<Rightarrow> nat \<Rightarrow> error + 'a" where
  "py_index xs i = (if i < length xs then Inr (xs ! i) else Inl IndexError)"

text \<open>\<open>s.split("\n")\<close>.\<close>

fun split_nl :: "string \<Rightarrow> string list" where
  "split_nl [] = [[]]"
| "split_nl (c # cs) =
     (if c = nl then [] # split_nl cs
      else (case split_nl cs of [] \<Rightarrow> [[c]] | x # xs \<Rightarrow> (c # x) # xs))"

text \<open>\<open>s.replace(old, new)\<close>: every non-overlapping occurrence, from the left.\<close>

function replace :: "string \<Rightarrow> string \<Rightarrow> string \<Rightarrow> string" where
  "replace old new s =
     (if old = [] then new @ concat (map (\<lambda>c. c # new) s)
      else if s = [] then []
      else if take (length old) s = old then new @ replace old new (drop (length old) s)
      else hd s # replace old new (tl s))"
  by pat_completeness auto
termination
  by (relation "measure (\<lambda>(old, new, s). length s)") auto

declare replace.simps [simp del]

text \<open>\<open>str(n)\<close> for an integer.\<close>

fun str_nat :: "nat \<Rightarrow> string" where
  "str_nat n =
     (if n < 10 then [''0123456789'' ! n]
      else str_nat (n div 10) @ [''0123456789'' ! (n mod 10)])"

declare str_nat.simps [simp del]

definition str_int :: "int \<Rightarrow> string" where
  "str_int i = (if i < 0 then CHR ''-'' # str_nat (nat (- i)) else str_nat (nat i))"

definition py_str :: "jscalar \<Rightarrow> string" where
  "py_str v = (case v of JInt i \<Rightarrow> str_int i | JStr s \<Rightarrow> s)"

text \<open>\<open>math.ceil(amount / 50)\<close>, exact while the quotient is representable.\<close>

definition ceil_div50 :: "int \<Rightarrow> int" where
  "ceil_div50 amount = - ((- amount) div 50)"

section \<open>Operations\<close>

definition format_plays :: "jscalar \<Rightarrow> string" where
  "format_plays amount = (if amount = JInt 1 then ''play'' else ''plays'')"

text \<open>\<open>session.get(url, params=params)\<close>: the GET is recorded, then answered.\<close>

definition session_get :: "network \<Rightarrow> request \<Rightarrow> (int \<times> payload) io" where
  "session_get net rq s =
     (let s' = s\<lparr>calls := calls s @ [rq]\<rparr>
      in case net (length (calls s)) rq of
           NetErr \<Rightarrow> (Inl ClientError, s')
         | Resp st b \<Rightarrow> (Inr (st, b), s'))"

text \<open>
  \<open>get_img\<close>: one GET of \<open>url or NO_IMAGE_PLACEHOLDER\<close>; on a status other than 200 a
  second GET of the placeholder, whose body is returned whatever its status.
\<close>

definition get_img :: "network \<Rightarrow> string \<Rightarrow> payload io" where
  "get_img net url s =
     (let s0 = s\<lparr>fetched := fetched s @ [url]\<rparr>
      in case session_get net (if url = [] then NO_IMAGE_PLACEHOLDER else url, []) s0 of
           (Inl e, s1) \<Rightarrow> (Inl e, s1)
         | (Inr (st, b), s1) \<Rightarrow>
             if st = 200 then (Inr b, s1)
             else (case session_get net (NO_IMAGE_PLACEHOLDER, []) s1 of
                     (Inl e, s2) \<Rightarrow> (Inl e, s2)
                   | (Inr (st2, b2), s2) \<Rightarrow> (Inr b2, s2)))"

text \<open>
  The cache block that \<open>create_chart\<close> repeats in each of its three branches:
  \<open>if ref in chart_data: chart_img = chart_data[ref]\<close>, otherwise \<open>get_img(ref)\<close> and store.
\<close>

definition cached_img ::
  "network \<Rightarrow> string \<Rightarrow> (string \<rightharpoonup> payload) \<Rightarrow> (payload \<times> (string \<rightharpoonup> payload)) io" where
  "cached_img net ref chart_data s =
     (case chart_data ref of
        Some chart_img \<Rightarrow> (Inr (chart_img, chart_data), s)
      | None \<Rightarrow>
          (case get_img net ref s of
             (Inl e, s') \<Rightarrow> (Inl e, s')
           | (Inr chart_img, s') \<Rightarrow> (Inr (chart_img, chart_data(ref \<mapsto> chart_img)), s')))"

subsection \<open>Tile renderer\<close>

text \<open>\<open>Image.open(BytesIO(b))\<close>: only the bytes of an image decode.\<close>

definition image_open :: "payload \<Rightarrow> error + picture" where
  "image_open b = (case b of ImageBody p \<Rightarrow> Inr p | _ \<Rightarrow> Inl UnidentifiedImageError)"

text \<open>The anchor and the text that \<open>charts\<close> hands to \<open>draw.text\<close> for a label.\<close>

definition charts_overlay :: "string \<Rightarrow> error + (int \<times> int) \<times> string" where
  "charts_overlay label =
     (case split_nl label of
        t0 # t1 # _ \<Rightarrow>
          if length t1 > 30
          then Inr ((5, 227), t0 @ [nl] @ take 30 t1 @ [nl] @ drop 30 t1)
          else Inr ((5, 247), label)
      | _ \<Rightarrow> Inl IndexError)"

text \<open>The same for \<open>gen_track_chart\<close>, which measures the whole label.\<close>

definition track_overlay :: "string \<Rightarrow> (int \<times> int) \<times> string" where
  "track_overlay label =
     (if length label > 30
      then ((5, 247), take 30 label @ [nl] @ drop 30 label)
      else ((5, 267), label))"

definition charts_tile :: "string \<times> payload \<Rightarrow> error + tile" where
  "charts_tile item =
     (case image_open (snd item) of
        Inl e \<Rightarrow> Inl e
      | Inr im \<Rightarrow>
          (case charts_overlay (fst item) of
             Inl e \<Rightarrow> Inl e
           | Inr (xy, text) \<Rightarrow>
               Inr \<lparr>t_image = im, t_anchor = xy, t_text = text,
                    t_name = fst item @ ''.png''\<rparr>))"

definition track_tile :: "string \<times> payload \<Rightarrow> error + tile" where
  "track_tile item =
     (case image_open (snd item) of
        Inl e \<Rightarrow> Inl e
      | Inr im \<Rightarrow>
          (case track_overlay (fst item) of
             (xy, text) \<Rightarrow>
               Inr \<lparr>t_image = im, t_anchor = xy, t_text = text,
                    t_name = fst item @ ''.png''\<rparr>))"

text \<open>The \<open>for item in data\<close> loop of both renderers, \<open>imgs\<close> being the list built so far.\<close>

fun render_loop ::
  "(string \<times> payload \<Rightarrow> error + tile) \<Rightarrow> (string \<times> payload) list \<Rightarrow> tile list
     \<Rightarrow> error + tile list" where
  "render_loop f [] imgs = Inr imgs"
| "render_loop f (item # data) imgs =
     (case f item of
        Inl e \<Rightarrow> Inl e
      | Inr t \<Rightarrow> render_loop f data (imgs @ [t]))"

subsection \<open>Grid compositor\<close>

text \<open>
  \<open>chunks(l, n)\<close>, consumed by a \<open>for\<close> loop: \<open>range(0, len(l), n)\<close> raises for a zero step
  and is empty for a negative one.
\<close>

function chunks_from :: "'a list \<Rightarrow> nat \<Rightarrow> 'a list list" where
  "chunks_from l n = (if l = [] \<or> n = 0 then [] else take n l # chunks_from (drop n l) n)"
  by pat_completeness auto
termination
  by (relation "measure (\<lambda>(l, n). length l)") auto

declare chunks_from.simps [simp del]

definition chunks :: "'a list \<Rightarrow> int \<Rightarrow> error + 'a list list" where
  "chunks l n =
     (if n = 0 then Inl ValueError
      else if n < 0 then Inr []
      else Inr (chunks_from l (nat n)))"

text \<open>
  The inner loop of \<open>create_graph\<close> over one row at height \<open>y\<close>. Its state is the list of
  pastes made on \<open>final\<close> and the variables \<open>x\<close>, \<open>w\<close>, \<open>h\<close>, the last two being
  overwritten with the size of each tile.
\<close>

fun row_loop ::
  "tile list \<Rightarrow> int \<Rightarrow> paste list \<times> int \<times> int \<times> int \<Rightarrow> paste list \<times> int \<times> int \<times> int" where
  "row_loop [] y st = st"
| "row_loop (img # chunked) y (final, x, w, h) =
     (let w' = pic_width (t_image img); h' = pic_height (t_image img)
      in row_loop chunked y
           (final @ [\<lparr>p_box = (x, y, x + w', y + h'), p_tile = img\<rparr>], x + 300, w', h'))"

fun grid_loop ::
  "tile list list \<Rightarrow> paste list \<times> int \<times> int \<times> int \<Rightarrow> paste list \<times> int \<times> int \<times> int" where
  "grid_loop [] st = st"
| "grid_loop (chunked # images) (final, y, w, h) =
     (case row_loop chunked y (final, 0, w, h) of
        (final', x', w', h') \<Rightarrow> grid_loop images (final', y + 300, w', h'))"

text \<open>
  The first half of \<open>create_graph\<close>: the canvas as it stands after the two loops.
  \<open>Image.new\<close> refuses a negative dimension.
\<close>

definition compose :: "tile list \<Rightarrow> int \<Rightarrow> int \<Rightarrow> error + canvas" where
  "compose data w h =
     (let dimensions = (300 * w, 300 * h)
      in if fst dimensions < 0 \<or> snd dimensions < 0 then Inl ValueError
         else (case chunks data w of
                 Inl e \<Rightarrow> Inl e
               | Inr images \<Rightarrow>
                   (case grid_loop images ([], 0, w, h) of
                      (final, y, w', h') \<Rightarrow>
                        Inr \<lparr>cv_size = dimensions, cv_pastes = final\<rparr>)))"

text \<open>
  The second half: \<open>w, h = final.size\<close>, the resize, and the save. The encoder refuses
  an empty picture.
\<close>

definition finish :: "canvas \<Rightarrow> error + webfile" where
  "finish final =
     (let w = fst (cv_size final); h = snd (cv_size final);
          resized = (w > 2100 \<and> h > 2100);
          size' = (if resized then (2100, 2100) else cv_size final)
      in if fst size' = 0 \<or> snd size' = 0 then Inl OSError
         else Inr \<lparr>f_format = ''webp'', f_name = ''chart.webp'', f_size = size',
                   f_resized = resized, f_pastes = cv_pastes final\<rparr>)"

definition create_graph :: "tile list \<Rightarrow> int \<Rightarrow> int \<Rightarrow> error + webfile" where
  "create_graph data w h =
     (case compose data w h of
        Inl e \<Rightarrow> Inl e
      | Inr final \<Rightarrow> finish final)"

definition charts :: "(string \<times> payload) list \<Rightarrow> int \<Rightarrow> int \<Rightarrow> error + webfile" where
  "charts data w h =
     (case render_loop charts_tile data [] of
        Inl e \<Rightarrow> Inl e
      | Inr imgs \<Rightarrow> create_graph imgs w h)"

definition gen_track_chart :: "(string \<times> payload) list \<Rightarrow> int \<Rightarrow> int \<Rightarrow> error + webfile" where
  "gen_track_chart data w h =
     (case render_loop track_tile data [] of
        Inl e \<Rightarrow> Inl e
      | Inr imgs \<Rightarrow> create_graph imgs w h)"

subsection \<open>Artist artwork resolver\<close>

definition page_request :: "string \<Rightarrow> string \<Rightarrow> int \<Rightarrow> request" where
  "page_request username preset i =
     (''https://www.last.fm/user/'' @ username @ ''/library/artists'',
      [(''date_preset'', PStr preset), (''page'', PInt i)])"

text \<open>\<open>fetch(url, params, handling="text")\<close>: the body, whatever the status.\<close>

definition fetch_text :: "network \<Rightarrow> request \<Rightarrow> payload io" where
  "fetch_text net rq s =
     (case session_get net rq s of
        (Inl e, s') \<Rightarrow> (Inl e, s')
      | (Inr (st, b), s') \<Rightarrow> (Inr b, s'))"

text \<open>
  The first loop of \<open>scrape_artists_for_chart\<close>: one task per page number; the lookup
  of the period raises for a period that is not in the table.
\<close>

fun make_tasks :: "string \<Rightarrow> string \<Rightarrow> int list \<Rightarrow> error + request list" where
  "make_tasks username period [] = Inr []"
| "make_tasks username period (i # pages) =
     (case map_of period_format_map period of
        None \<Rightarrow> Inl KeyError
      | Some preset \<Rightarrow>
          (case make_tasks username period pages of
             Inl e \<Rightarrow> Inl e
           | Inr tasks \<Rightarrow> Inr (page_request username preset i # tasks)))"

text \<open>
  \<open>asyncio.gather(*tasks)\<close>: every task issues its GET, in the order of creation; the
  results come back in task order, or the first failure is raised.
\<close>

fun gather :: "network \<Rightarrow> request list \<Rightarrow> payload list io" where
  "gather net [] s = (Inr [], s)"
| "gather net (rq # tasks) s =
     (case fetch_text net rq s of
        (r, s1) \<Rightarrow>
          (case gather net tasks s1 of
             (rs, s2) \<Rightarrow>
               (case r of
                  Inl e \<Rightarrow> (Inl e, s2)
                | Inr b \<Rightarrow>
                    (case rs of
                       Inl e \<Rightarrow> (Inl e, s2)
                     | Inr bs \<Rightarrow> (Inr (b # bs), s2)))))"

text \<open>\<open>soup.findAll("td", {"class": "chartlist-image"})\<close>: no cell in anything but a listing.\<close>

definition find_imagedivs :: "payload \<Rightarrow> string option list" where
  "find_imagedivs data = (case data of HtmlBody divs \<Rightarrow> divs | _ \<Rightarrow> [])"

text \<open>The list comprehension over the cells; a cell without an image raises.\<close>

fun image_srcs :: "string option list \<Rightarrow> error + string list" where
  "image_srcs [] = Inr []"
| "image_srcs (None # imagedivs) = Inl TypeError"
| "image_srcs (Some src # imagedivs) =
     (case image_srcs imagedivs of
        Inl e \<Rightarrow> Inl e
      | Inr urls \<Rightarrow> Inr (replace ''/avatar70s/'' ''/300x300/'' src # urls))"

text \<open>The second loop, over the responses, \<open>images\<close> being the list built so far.\<close>

fun collect :: "payload list \<Rightarrow> string list \<Rightarrow> int \<Rightarrow> error + string list" where
  "collect [] images amount = Inr images"
| "collect (data # responses) images amount =
     (if int (length images) \<ge> amount then Inr images
      else (case image_srcs (find_imagedivs data) of
              Inl e \<Rightarrow> Inl e
            | Inr urls \<Rightarrow> collect responses (images @ urls) amount))"

definition scrape_artists_for_chart ::
  "network \<Rightarrow> string \<Rightarrow> string \<Rightarrow> int \<Rightarrow> string list io" where
  "scrape_artists_for_chart net username period amount s =
     (case make_tasks username period [1 .. ceil_div50 amount] of
        Inl e \<Rightarrow> (Inl e, s)
      | Inr tasks \<Rightarrow>
          (case gather net tasks s of
             (Inl e, s') \<Rightarrow> (Inl e, s')
           | (Inr responses, s') \<Rightarrow>
               (case collect responses [] amount of
                  Inl e \<Rightarrow> (Inl e, s')
                | Inr images \<Rightarrow> (Inr images, s'))))"

subsection \<open>Item extractor\<close>

definition album_label :: "album \<Rightarrow> string" where
  "album_label album =
     py_str (al_playcount album) @ '' '' @ format_plays (al_playcount album) @ [nl]
       @ al_name album @ '' - '' @ al_artist album"

definition artist_label :: "artist \<Rightarrow> string" where
  "artist_label artist =
     py_str (ar_playcount artist) @ '' '' @ format_plays (ar_playcount artist) @ [nl]
       @ ar_name artist"

definition track_label :: "track \<Rightarrow> string" where
  "track_label track = tr_name track @ '' - '' @ tr_artist track"

fun albums_loop ::
  "network \<Rightarrow> album list \<Rightarrow> (string \<times> payload) list \<Rightarrow> (string \<rightharpoonup> payload)
     \<Rightarrow> (string \<times> payload) list io" where
  "albums_loop net [] chart chart_data s = (Inr chart, s)"
| "albums_loop net (album # albums) chart chart_data s =
     (case py_index (al_image album) 3 of
        Inl e \<Rightarrow> (Inl e, s)
      | Inr ref \<Rightarrow>
          (case cached_img net ref chart_data s of
             (Inl e, s') \<Rightarrow> (Inl e, s')
           | (Inr (chart_img, chart_data'), s') \<Rightarrow>
               albums_loop net albums (chart @ [(album_label album, chart_img)])
                 chart_data' s'))"

text \<open>The loop over \<open>enumerate(iterator)\<close>, \<open>i\<close> being the index of the first artist left.\<close>

fun artists_loop ::
  "network \<Rightarrow> string list \<Rightarrow> nat \<Rightarrow> artist list \<Rightarrow> (string \<times> payload) list
     \<Rightarrow> (string \<rightharpoonup> payload) \<Rightarrow> (string \<times> payload) list io" where
  "artists_loop net scraped_images i [] chart chart_data s = (Inr chart, s)"
| "artists_loop net scraped_images i (artist # iterator) chart chart_data s =
     (case py_index scraped_images i of
        Inl e \<Rightarrow> (Inl e, s)
      | Inr ref \<Rightarrow>
          (case cached_img net ref chart_data s of
             (Inl e, s') \<Rightarrow> (Inl e, s')
           | (Inr (chart_img, chart_data'), s') \<Rightarrow>
               artists_loop net scraped_images (Suc i) iterator
                 (chart @ [(artist_label artist, chart_img)]) chart_data' s'))"

text \<open>
  The loop over the recent tracks renders the chart at the end of every iteration;
  \<open>img\<close> is \<open>None\<close> as long as it has not been assigned.
\<close>

fun tracks_loop ::
  "network \<Rightarrow> int \<Rightarrow> int \<Rightarrow> track list \<Rightarrow> (string \<times> payload) list
     \<Rightarrow> (string \<rightharpoonup> payload) \<Rightarrow> webfile option \<Rightarrow> webfile option io" where
  "tracks_loop net width height [] chart chart_data img s = (Inr img, s)"
| "tracks_loop net width height (track # tracks) chart chart_data img s =
     (case py_index (tr_image track) 3 of
        Inl e \<Rightarrow> (Inl e, s)
      | Inr ref \<Rightarrow>
          (case cached_img net ref chart_data s of
             (Inl e, s') \<Rightarrow> (Inl e, s')
           | (Inr (chart_img, chart_data'), s') \<Rightarrow>
               (let chart' = chart @ [(track_label track, chart_img)]
                in case gen_track_chart chart' width height of
                     Inl e \<Rightarrow> (Inl e, s')
                   | Inr img' \<Rightarrow>
                       tracks_loop net width height tracks chart' chart_data' (Some img') s')))"

definition create_chart ::
  "network \<Rightarrow> content \<Rightarrow> string \<Rightarrow> int \<Rightarrow> int \<Rightarrow> string \<Rightarrow> string \<Rightarrow> webfile io" where
  "create_chart net data method height width period username s =
     (if method = ''user.gettopalbums'' then
        (case c_topalbums data of
           None \<Rightarrow> (Inl KeyError, s)
         | Some albums \<Rightarrow>
             (case albums_loop net (py_take (width * height) albums) [] Map.empty s of
                (Inl e, s') \<Rightarrow> (Inl e, s')
              | (Inr chart, s') \<Rightarrow> (charts chart width height, s')))
      else if method = ''user.gettopartists'' then
        (case c_topartists data of
           None \<Rightarrow> (Inl KeyError, s)
         | Some artists \<Rightarrow>
             (case scrape_artists_for_chart net username period (width * height) s of
                (Inl e, s') \<Rightarrow> (Inl e, s')
              | (Inr scraped_images, s') \<Rightarrow>
                  (case artists_loop net scraped_images 0 (py_take (width * height) artists)
                          [] Map.empty s' of
                     (Inl e, s'') \<Rightarrow> (Inl e, s'')
                   | (Inr chart, s'') \<Rightarrow> (charts chart width height, s''))))
      else if method = ''user.getrecenttracks'' then
        (case c_recenttracks data of
           None \<Rightarrow> (Inl KeyError, s)
         | Some tracks \<Rightarrow>
             (let tracks' = (case tracks of TrackDict t \<Rightarrow> [t] | TrackList ts \<Rightarrow> ts)
              in case tracks_loop net width height (py_take (width * height) tracks')
                        [] Map.empty None s of
                   (Inl e, s') \<Rightarrow> (Inl e, s')
                 | (Inr None, s') \<Rightarrow> (Inl UnboundLocalError, s')
                 | (Inr (Some img), s') \<Rightarrow> (Inr img, s')))
      else (Inl UnboundLocalError, s))"

subsection \<open>Request handler\<close>

definition api_request :: "string \<Rightarrow> string \<Rightarrow> string \<Rightarrow> request" where
  "api_request username method period =
     (''http://ws.audioscrobbler.com/2.0/'',
      [(''user'', PStr username), (''method'', PStr method), (''period'', PStr period),
       (''limit'', PInt 100), (''api_key'', PStr ''API_KEY''), (''format'', PStr ''json'')])"

text \<open>
  \<open>lastfm_chart\<close>. A body that is not JSON makes \<open>response.json()\<close> raise
  \<open>ContentTypeError\<close>, which is suppressed and leaves \<open>content\<close> unassigned.
\<close>

definition lastfm_chart ::
  "network \<Rightarrow> string \<Rightarrow> string \<Rightarrow> string \<Rightarrow> int \<Rightarrow> int \<Rightarrow> streaming_response io" where
  "lastfm_chart net username datatype period height width s =
     (if height + width > 31 then
        (Inl (HTTPException 400 ''Height and width cannot be greater than 31''), s)
      else
        (case map_of DATATYPES datatype of
           None \<Rightarrow> (Inl (HTTPException 400 ''Invalid datatype''), s)
         | Some method \<Rightarrow>
             (case session_get net (api_request username method period) s of
                (Inl e, s1) \<Rightarrow> (Inl e, s1)
              | (Inr (st, JsonBody content), s1) \<Rightarrow>
                  if has_key (c_error content) \<or> st \<noteq> 200 then
                    (case c_message content of
                       None \<Rightarrow> (Inl KeyError, s1)
                     | Some message \<Rightarrow> (Inl (HTTPException st message), s1))
                  else
                    (case create_chart net content method height width period username s1 of
                       (Inl e, s2) \<Rightarrow> (Inl e, s2)
                     | (Inr chart, s2) \<Rightarrow>
                         (Inr \<lparr>sr_content = chart, sr_media_type = ''image/png'',
                               sr_status_code = 200\<rparr>, s2))
              | (Inr (st, _), s1) \<Rightarrow> (Inl UnboundLocalError, s1))))"

section \<open>Notions used in the statements\<close>

text \<open>
  A run of the cache block over the references \<open>refs\<close>, from the cache \<open>cd\<close> and the
  world \<open>s\<close> to \<open>cd'\<close> and \<open>s'\<close>: the cache has grown by \<open>refs\<close>, and \<open>get_img\<close> was
  invoked once for each reference that was not in the cache, and for no other.
\<close>

definition fetched_once ::
  "(string \<rightharpoonup> payload) \<Rightarrow> world \<Rightarrow> string list \<Rightarrow> (string \<rightharpoonup> payload) \<Rightarrow> world \<Rightarrow> bool" where
  "fetched_once cd s refs cd' s' \<longleftrightarrow>
     cd \<subseteq>\<^sub>m cd' \<and> dom cd' = dom cd \<union> set refs
     \<and> (\<exists>fs. fetched s' = fetched s @ fs \<and> distinct fs \<and> set fs = set refs - dom cd)"


text \<open>The labels of all the items that the provider reports for a metric, in rank order.\<close>

definition item_labels :: "content \<Rightarrow> string \<Rightarrow> string list" where
  "item_labels data method =
     (if method = ''user.gettopalbums'' then
        (case c_topalbums data of None \<Rightarrow> [] | Some albums \<Rightarrow> map album_label albums)
      else if method = ''user.gettopartists'' then
        (case c_topartists data of None \<Rightarrow> [] | Some artists \<Rightarrow> map artist_label artists)
      else if method = ''user.getrecenttracks'' then
        (case c_recenttracks data of
           None \<Rightarrow> []
         | Some (TrackDict t) \<Rightarrow> [track_label t]
         | Some (TrackList ts) \<Rightarrow> map track_label ts)
      else [])"

text \<open>The paste of a tile with its upper left corner at \<open>(x, y)\<close>.\<close>

definition tile_at :: "int \<Rightarrow> int \<Rightarrow> tile \<Rightarrow> paste" where
  "tile_at x y t =
     \<lparr>p_box = (x, y, x + pic_width (t_image t), y + pic_height (t_image t)), p_tile = t\<rparr>"

section \<open>Example inputs\<close>

text \<open>Concrete worlds and networks at which the theorems below are evaluated.\<close>

definition world0 :: world where
  "world0 = \<lparr>calls = [], fetched = []\<rparr>"

definition net_down :: network where
  "net_down n rq = NetErr"

definition net_404 :: network where
  "net_404 n rq = Resp 404 (OtherBody ''Not Found'')"

definition net_404_then_500 :: network where
  "net_404_then_500 n rq =
     (if n = 0 then Resp 404 (OtherBody ''Not Found'') else Resp 500 (OtherBody ''Oops''))"

definition net_404_then_down :: network where
  "net_404_then_down n rq = (if n = 0 then Resp 404 (OtherBody ''Not Found'') else NetErr)"

definition example_picture :: picture where
  "example_picture = \<lparr>pic_width = 300, pic_height = 300, pic_data = ''cover''\<rparr>"

definition net_ok :: network where
  "net_ok n rq = Resp 200 (ImageBody example_picture)"

definition example_album :: album where
  "example_album =
     \<lparr>al_name = ''Blue'', al_artist = ''Joni Mitchell'', al_playcount = JStr ''12'',
      al_image = [''http://img/s.png'', ''http://img/m.png'', ''http://img/l.png'',
                  ''http://img/xl.png'']\<rparr>"

definition example_album2 :: album where
  "example_album2 =
     \<lparr>al_name = ''Blue (Remastered)'', al_artist = ''Joni Mitchell'', al_playcount = JStr ''7'',
      al_image = [''http://img/s.png'', ''http://img/m.png'', ''http://img/l.png'',
                  ''http://img/xl.png'']\<rparr>"

definition example_album3 :: album where
  "example_album3 =
     \<lparr>al_name = ''Hejira'', al_artist = ''Joni Mitchell'', al_playcount = JStr ''1'',
      al_image = [''http://img/hs.png'', ''http://img/hm.png'', ''http://img/hl.png'',
                  ''http://img/hxl.png'']\<rparr>"

definition example_artist :: artist where
  "example_artist = \<lparr>ar_name = ''Joni Mitchell'', ar_playcount = JStr ''40''\<rparr>"

definition example_content :: content where
  "example_content =
     \<lparr>c_error = None, c_message = None,
      c_topalbums = Some [example_album, example_album2, example_album3],
      c_topartists = Some [example_artist], c_recenttracks = Some (TrackList [])\<rparr>"

text \<open>
  A network where the provider answers with \<open>example_content\<close>, the listing page of
  \<open>alice\<close> has no image cell, and every other URL delivers a picture of its own.
\<close>

definition example_net :: network where
  "example_net n rq =
     (if fst rq = ''http://ws.audioscrobbler.com/2.0/'' then Resp 200 (JsonBody example_content)
      else if fst rq = ''https://www.last.fm/user/alice/library/artists''
      then Resp 200 (HtmlBody [])
      else Resp 200 (ImageBody (example_picture\<lparr>pic_data := fst rq\<rparr>)))"




section \<open>Every operation only adds to the record of calls\<close>

lemma session_get_world:
  "session_get net rq s = (r, s') \<Longrightarrow> calls s' = calls s @ [rq] \<and> fetched s' = fetched s"
  by (auto simp: session_get_def Let_def split: response.splits)

lemma get_img_world:
  "get_img net url s = (r, s') \<Longrightarrow>
     (\<exists>cs. calls s' = calls s @ cs) \<and> fetched s' = fetched s @ [url]"
  unfolding get_img_def Let_def
  by (auto split: prod.splits sum.splits if_splits dest!: session_get_world)

lemma cached_img_calls:
  "cached_img net ref cd s = (r, s') \<Longrightarrow> \<exists>cs. calls s' = calls s @ cs"
  unfolding cached_img_def
  by (auto split: option.splits prod.splits sum.splits dest!: get_img_world)

lemma albums_loop_calls:
  "albums_loop net albums chart cd s = (r, s') \<Longrightarrow> \<exists>cs. calls s' = calls s @ cs"
proof (induction albums arbitrary: chart cd s)
  case Nil
  then show ?case by simp
next
  case (Cons a albums)
  from Cons.prems show ?case
    by (auto split: sum.splits prod.splits dest!: cached_img_calls Cons.IH)
qed

lemma artists_loop_calls:
  "artists_loop net sc i artists chart cd s = (r, s') \<Longrightarrow> \<exists>cs. calls s' = calls s @ cs"
proof (induction artists arbitrary: i chart cd s)
  case Nil
  then show ?case by simp
next
  case (Cons a artists)
  from Cons.prems show ?case
    by (auto split: sum.splits prod.splits dest!: cached_img_calls Cons.IH)
qed

lemma tracks_loop_calls:
  "tracks_loop net w h tracks chart cd img s = (r, s') \<Longrightarrow> \<exists>cs. calls s' = calls s @ cs"
proof (induction tracks arbitrary: chart cd img s)
  case Nil
  then show ?case by simp
next
  case (Cons a tracks)
  from Cons.prems show ?case
    by (auto simp: Let_def split: sum.splits prod.splits dest!: cached_img_calls Cons.IH)
qed

lemma fetch_text_world:
  "fetch_text net rq s = (r, s') \<Longrightarrow> calls s' = calls s @ [rq] \<and> fetched s' = fetched s"
  unfolding fetch_text_def
  by (auto split: prod.splits sum.splits dest!: session_get_world)

lemma gather_world:
  "gather net tasks s = (r, s') \<Longrightarrow> calls s' = calls s @ tasks \<and> fetched s' = fetched s"
proof (induction tasks arbitrary: r s s')
  case Nil
  then show ?case by simp
next
  case (Cons rq tasks)
  obtain r1 s1 where f: "fetch_text net rq s = (r1, s1)" by (cases "fetch_text net rq s")
  obtain rs s2 where g: "gather net tasks s1 = (rs, s2)" by (cases "gather net tasks s1")
  from Cons.prems f g have "s' = s2" by (auto split: sum.splits)
  with Cons.IH[OF g] fetch_text_world[OF f] show ?case by simp
qed

lemma scrape_calls:
  "scrape_artists_for_chart net u p n s = (r, s') \<Longrightarrow>
     (\<exists>cs. calls s' = calls s @ cs) \<and> fetched s' = fetched s"
  unfolding scrape_artists_for_chart_def
  by (auto split: sum.splits prod.splits dest!: gather_world)

lemma create_chart_calls:
  "create_chart net data method h w p u s = (r, s') \<Longrightarrow> \<exists>cs. calls s' = calls s @ cs"
  unfolding create_chart_def Let_def
  by (auto split: if_splits option.splits sum.splits prod.splits
      dest!: albums_loop_calls artists_loop_calls tracks_loop_calls scrape_calls)

lemma lastfm_chart_passes:
  assumes "height + width \<le> 31" and "map_of DATATYPES datatype = Some method"
  shows "\<exists>rest. calls (snd (lastfm_chart net username datatype period height width s))
           = calls s @ api_request username method period # rest"
proof -
  obtain r1 s1 where g: "session_get net (api_request username method period) s = (r1, s1)"
    by (cases "session_get net (api_request username method period) s")
  from session_get_world[OF g] have c1: "calls s1 = calls s @ [api_request username method period]"
    by simp
  show ?thesis
  proof (cases r1)
    case (Inl e)
    with assms g c1 show ?thesis by (simp add: lastfm_chart_def)
  next
    case (Inr p)
    obtain st b where p: "p = (st, b)" by (cases p)
    show ?thesis
    proof (cases b)
      case (JsonBody content)
      obtain r2 s2 where cc: "create_chart net content method height width period username s1 = (r2, s2)"
        by (cases "create_chart net content method height width period username s1")
      from create_chart_calls[OF cc] c1 obtain cs where "calls s2 = calls s @ api_request username method period # cs"
        by auto
      with assms g c1 Inr p JsonBody cc show ?thesis
        by (auto simp: lastfm_chart_def split: option.splits sum.splits)
    qed (use assms g c1 Inr p in \<open>simp_all add: lastfm_chart_def\<close>)
  qed
qed

section \<open>Request validation\<close>

text \<open>
  Claim C3. A request with \<open>width + height > 31\<close>, or with a metric outside the supported
  set, is answered with status 400 and the world is left as it was: no GET has been
  issued. A request with \<open>width + height = 31\<close> and a supported metric passes validation:
  the GET to the statistics provider is the next call made.
\<close>

theorem lastfm_chart_validation:
  "(31 < height + width \<or> datatype \<notin> {''albums'', ''artists'', ''recenttracks''} \<longrightarrow>
      (\<exists>detail. lastfm_chart net username datatype period height width s
                  = (Inl (HTTPException 400 detail), s)))
   \<and> (height + width = 31 \<and> datatype \<in> {''albums'', ''artists'', ''recenttracks''} \<longrightarrow>
      (\<exists>method rest. map_of DATATYPES datatype = Some method
          \<and> calls (snd (lastfm_chart net username datatype period height width s))
              = calls s @ api_request username method period # rest))"
proof (intro conjI impI)
  assume "31 < height + width \<or> datatype \<notin> {''albums'', ''artists'', ''recenttracks''}"
  then show "\<exists>detail. lastfm_chart net username datatype period height width s
                  = (Inl (HTTPException 400 detail), s)"
    by (auto simp: lastfm_chart_def DATATYPES_def)
next
  assume a: "height + width = 31 \<and> datatype \<in> {''albums'', ''artists'', ''recenttracks''}"
  then obtain m0 where m: "map_of DATATYPES datatype = Some m0"
    by (auto simp: DATATYPES_def)
  from a have "height + width \<le> 31" by simp
  from lastfm_chart_passes[OF this m] m
  show "\<exists>method rest. map_of DATATYPES datatype = Some method
          \<and> calls (snd (lastfm_chart net username datatype period height width s))
              = calls s @ api_request username method period # rest"
    by blast
qed

theorem lastfm_chart_validation_witness:
  "(\<exists>detail. lastfm_chart (\<lambda>n rq. NetErr) ''alice'' ''albums'' ''overall'' 16 16
       \<lparr>calls = [], fetched = []\<rparr> = (Inl (HTTPException 400 detail), \<lparr>calls = [], fetched = []\<rparr>))
   \<and> (\<exists>detail. lastfm_chart (\<lambda>n rq. NetErr) ''alice'' ''toptracks'' ''overall'' 3 3
       \<lparr>calls = [], fetched = []\<rparr> = (Inl (HTTPException 400 detail), \<lparr>calls = [], fetched = []\<rparr>))
   \<and> (\<exists>method rest. map_of DATATYPES ''albums'' = Some method
          \<and> calls (snd (lastfm_chart (\<lambda>n rq. NetErr) ''alice'' ''albums'' ''overall'' 16 15
                \<lparr>calls = [], fetched = []\<rparr>))
              = api_request ''alice'' method ''overall'' # rest)"
  using lastfm_chart_validation[of 16 16 "''albums''" "\<lambda>n rq. NetErr" "''alice''" "''overall''"
          "\<lparr>calls = [], fetched = []\<rparr>"]
        lastfm_chart_validation[of 3 3 "''toptracks''" "\<lambda>n rq. NetErr" "''alice''" "''overall''"
          "\<lparr>calls = [], fetched = []\<rparr>"]
        lastfm_chart_validation[of 16 15 "''albums''" "\<lambda>n rq. NetErr" "''alice''" "''overall''"
          "\<lparr>calls = [], fetched = []\<rparr>"]
  by simp

section \<open>Text layout\<close>

lemma split_nl_no_nl: "nl \<notin> set s \<Longrightarrow> split_nl s = [s]"
  by (induction s) auto

lemma split_nl_append: "nl \<notin> set a \<Longrightarrow> split_nl (a @ nl # b) = a # split_nl b"
  by (induction a) auto

lemma charts_overlay_two_lines:
  assumes "nl \<notin> set line1" and "nl \<notin> set line2"
  shows "charts_overlay (line1 @ [nl] @ line2) =
           (if length line2 > 30
            then Inr ((5, 227), line1 @ [nl] @ take 30 line2 @ [nl] @ drop 30 line2)
            else Inr ((5, 247), line1 @ [nl] @ line2))"
  using assms by (simp add: charts_overlay_def split_nl_append split_nl_no_nl)

text \<open>
  Claim C8. A two-line label whose second line has exactly 30 characters is drawn
  unchanged at anchor (5, 247); with 31 characters the second line is cut at offset 30
  into two lines and the anchor is (5, 227). A recent-tracks label of exactly 30
  characters is drawn unchanged at (5, 267); with 31 characters it is cut at offset 30
  and the anchor is (5, 247).
\<close>

theorem label_wrap_boundary:
  assumes "nl \<notin> set line1" and "nl \<notin> set line2"
  shows "(length line2 = 30 \<longrightarrow>
            charts_tile (line1 @ [nl] @ line2, ImageBody p) =
              Inr \<lparr>t_image = p, t_anchor = (5, 247), t_text = line1 @ [nl] @ line2,
                   t_name = line1 @ [nl] @ line2 @ ''.png''\<rparr>)
       \<and> (length line2 = 31 \<longrightarrow>
            charts_tile (line1 @ [nl] @ line2, ImageBody p) =
              Inr \<lparr>t_image = p, t_anchor = (5, 227),
                   t_text = line1 @ [nl] @ take 30 line2 @ [nl] @ drop 30 line2,
                   t_name = line1 @ [nl] @ line2 @ ''.png''\<rparr>)
       \<and> (length label = 30 \<longrightarrow>
            track_tile (label, ImageBody p) =
              Inr \<lparr>t_image = p, t_anchor = (5, 267), t_text = label,
                   t_name = label @ ''.png''\<rparr>)
       \<and> (length label = 31 \<longrightarrow>
            track_tile (label, ImageBody p) =
              Inr \<lparr>t_image = p, t_anchor = (5, 247),
                   t_text = take 30 label @ [nl] @ drop 30 label,
                   t_name = label @ ''.png''\<rparr>)"
proof (intro conjI impI)
  assume "length line2 = 30"
  with charts_overlay_two_lines[OF assms]
  show "charts_tile (line1 @ [nl] @ line2, ImageBody p) =
              Inr \<lparr>t_image = p, t_anchor = (5, 247), t_text = line1 @ [nl] @ line2,
                   t_name = line1 @ [nl] @ line2 @ ''.png''\<rparr>"
    by (simp add: charts_tile_def image_open_def)
next
  assume "length line2 = 31"
  with charts_overlay_two_lines[OF assms]
  show "charts_tile (line1 @ [nl] @ line2, ImageBody p) =
              Inr \<lparr>t_image = p, t_anchor = (5, 227),
                   t_text = line1 @ [nl] @ take 30 line2 @ [nl] @ drop 30 line2,
                   t_name = line1 @ [nl] @ line2 @ ''.png''\<rparr>"
    by (simp add: charts_tile_def image_open_def)
next
  assume "length label = 30"
  then show "track_tile (label, ImageBody p) =
              Inr \<lparr>t_image = p, t_anchor = (5, 267), t_text = label,
                   t_name = label @ ''.png''\<rparr>"
    by (simp add: track_tile_def track_overlay_def image_open_def)
next
  assume "length label = 31"
  then show "track_tile (label, ImageBody p) =
              Inr \<lparr>t_image = p, t_anchor = (5, 247),
                   t_text = take 30 label @ [nl] @ drop 30 label,
                   t_name = label @ ''.png''\<rparr>"
    by (simp add: track_tile_def track_overlay_def image_open_def)
qed

theorem label_wrap_boundary_witness:
  "charts_tile (''12 plays'' @ [nl] @ ''abcdefghijklmnopqrstuvwxyz1234'', ImageBody example_picture) =
     Inr \<lparr>t_image = example_picture, t_anchor = (5, 247),
          t_text = ''12 plays'' @ [nl] @ ''abcdefghijklmnopqrstuvwxyz1234'',
          t_name = ''12 plays'' @ [nl] @ ''abcdefghijklmnopqrstuvwxyz1234'' @ ''.png''\<rparr>
   \<and> charts_tile (''12 plays'' @ [nl] @ ''abcdefghijklmnopqrstuvwxyz12345'', ImageBody example_picture) =
     Inr \<lparr>t_image = example_picture, t_anchor = (5, 227),
          t_text = ''12 plays'' @ [nl] @ ''abcdefghijklmnopqrstuvwxyz1234'' @ [nl] @ ''5'',
          t_name = ''12 plays'' @ [nl] @ ''abcdefghijklmnopqrstuvwxyz12345'' @ ''.png''\<rparr>
   \<and> track_tile (''abcdefghijklmnopqrstuvwxyz1234'', ImageBody example_picture) =
     Inr \<lparr>t_image = example_picture, t_anchor = (5, 267),
          t_text = ''abcdefghijklmnopqrstuvwxyz1234'',
          t_name = ''abcdefghijklmnopqrstuvwxyz1234'' @ ''.png''\<rparr>
   \<and> track_tile (''abcdefghijklmnopqrstuvwxyz12345'', ImageBody example_picture) =
     Inr \<lparr>t_image = example_picture, t_anchor = (5, 247),
          t_text = ''abcdefghijklmnopqrstuvwxyz1234'' @ [nl] @ ''5'',
          t_name = ''abcdefghijklmnopqrstuvwxyz12345'' @ ''.png''\<rparr>"
proof -
  have n1: "nl \<notin> set ''12 plays''" by (simp add: nl_def)
  have n2: "nl \<notin> set ''abcdefghijklmnopqrstuvwxyz1234''" by (simp add: nl_def)
  have n3: "nl \<notin> set ''abcdefghijklmnopqrstuvwxyz12345''" by (simp add: nl_def)
  from label_wrap_boundary[OF n1 n2, where label = "''abcdefghijklmnopqrstuvwxyz1234''"
          and p = example_picture]
       label_wrap_boundary[OF n1 n3, where label = "''abcdefghijklmnopqrstuvwxyz12345''"
          and p = example_picture]
  show ?thesis by simp
qed

section \<open>Canvas size\<close>

text \<open>
  Claim C2. For positive \<open>width\<close> and \<open>height\<close> the canvas composed by \<open>create_graph\<close>
  measures \<open>(300 * width, 300 * height)\<close>; the picture is resized exactly when both of
  these exceed 2100, and it then measures 2100 by 2100; otherwise it keeps the size
  of the canvas.
\<close>

theorem canvas_dimensions:
  assumes "1 \<le> w" and "1 \<le> h"
  shows "\<exists>final file.
           compose data w h = Inr final \<and> cv_size final = (300 * w, 300 * h)
         \<and> create_graph data w h = Inr file
         \<and> (f_resized file \<longleftrightarrow> 300 * w > 2100 \<and> 300 * h > 2100)
         \<and> f_size file = (if f_resized file then (2100, 2100) else (300 * w, 300 * h))"
proof -
  obtain final y w' h' where g: "grid_loop (chunks_from data (nat w)) ([], 0, w, h) = (final, y, w', h')"
    by (cases "grid_loop (chunks_from data (nat w)) ([], 0, w, h)") auto
  from assms g have c: "compose data w h = Inr \<lparr>cv_size = (300 * w, 300 * h), cv_pastes = final\<rparr>"
    by (simp add: compose_def chunks_def)
  from assms c show ?thesis
    by (simp add: create_graph_def finish_def Let_def)
qed

theorem canvas_dimensions_witness:
  "(1::int) \<le> 3 \<and> (1::int) \<le> 3
   \<and> (\<exists>final file.
           compose [] 3 3 = Inr final \<and> cv_size final = (900, 900)
         \<and> create_graph [] 3 3 = Inr file
         \<and> \<not> f_resized file \<and> f_size file = (900, 900))
   \<and> (\<exists>final file.
           compose [] 8 9 = Inr final \<and> cv_size final = (2400, 2700)
         \<and> create_graph [] 8 9 = Inr file
         \<and> f_resized file \<and> f_size file = (2100, 2100))"
proof -
  have h1: "(1::int) \<le> 3" by simp
  have h2: "(1::int) \<le> 8" by simp
  have h3: "(1::int) \<le> 9" by simp
  from canvas_dimensions[OF h1 h1, of "[]"] canvas_dimensions[OF h2 h3, of "[]"]
  show ?thesis by auto
qed

section \<open>Image fetcher\<close>

text \<open>
  Claim C4 does not hold as stated. A network failure of the first GET is raised at
  once and no second GET is made; a placeholder answered with status 404 is not a
  failure for \<open>get_img\<close>, which returns its body; and for an empty reference the only
  GET made goes to the placeholder, nothing being retried.
\<close>

theorem get_img_counterexample:
  "get_img net_down ''http://img/a.png'' world0
     = (Inl ClientError, \<lparr>calls = [(''http://img/a.png'', [])], fetched = [''http://img/a.png'']\<rparr>)
   \<and> get_img net_404 ''http://img/a.png'' world0
     = (Inr (OtherBody ''Not Found''),
        \<lparr>calls = [(''http://img/a.png'', []), (NO_IMAGE_PLACEHOLDER, [])],
          fetched = [''http://img/a.png'']\<rparr>)
   \<and> get_img net_ok [] world0
     = (Inr (ImageBody example_picture),
        \<lparr>calls = [(NO_IMAGE_PLACEHOLDER, [])], fetched = [[]]\<rparr>)"
  by (simp add: get_img_def session_get_def world0_def net_down_def net_404_def net_ok_def
      NO_IMAGE_PLACEHOLDER_def)

text \<open>
  Claim C4, amended. The first GET goes to the reference, or to the placeholder when
  the reference is empty. A network failure of this GET is raised with no retry. An
  answer with status 200 is returned. On any other status exactly one more GET is
  made, to the placeholder: its body is returned whatever its status, and only a
  network failure of it is raised.
\<close>

theorem get_img_cases:
  assumes "first = (if url = [] then NO_IMAGE_PLACEHOLDER else url, [])"
    and "n = length (calls s)"
  shows "(net n first = NetErr \<longrightarrow>
            get_img net url s
              = (Inl ClientError, s\<lparr>calls := calls s @ [first], fetched := fetched s @ [url]\<rparr>))
       \<and> (net n first = Resp 200 b \<longrightarrow>
            get_img net url s
              = (Inr b, s\<lparr>calls := calls s @ [first], fetched := fetched s @ [url]\<rparr>))
       \<and> (net n first = Resp st b \<and> st \<noteq> 200
            \<and> net (Suc n) (NO_IMAGE_PLACEHOLDER, []) = Resp st2 b2 \<longrightarrow>
            get_img net url s
              = (Inr b2, s\<lparr>calls := calls s @ [first, (NO_IMAGE_PLACEHOLDER, [])],
                          fetched := fetched s @ [url]\<rparr>))
       \<and> (net n first = Resp st b \<and> st \<noteq> 200
            \<and> net (Suc n) (NO_IMAGE_PLACEHOLDER, []) = NetErr \<longrightarrow>
            get_img net url s
              = (Inl ClientError, s\<lparr>calls := calls s @ [first, (NO_IMAGE_PLACEHOLDER, [])],
                          fetched := fetched s @ [url]\<rparr>))"
  using assms by (auto simp: get_img_def session_get_def Let_def)

theorem get_img_cases_witness:
  "get_img net_down ''http://img/a.png'' world0
     = (Inl ClientError, \<lparr>calls = [(''http://img/a.png'', [])], fetched = [''http://img/a.png'']\<rparr>)
   \<and> get_img net_ok ''http://img/a.png'' world0
     = (Inr (ImageBody example_picture),
        \<lparr>calls = [(''http://img/a.png'', [])], fetched = [''http://img/a.png'']\<rparr>)
   \<and> get_img net_404_then_500 ''http://img/a.png'' world0
     = (Inr (OtherBody ''Oops''),
        \<lparr>calls = [(''http://img/a.png'', []), (NO_IMAGE_PLACEHOLDER, [])],
          fetched = [''http://img/a.png'']\<rparr>)
   \<and> get_img net_404_then_down ''http://img/a.png'' world0
     = (Inl ClientError,
        \<lparr>calls = [(''http://img/a.png'', []), (NO_IMAGE_PLACEHOLDER, [])],
          fetched = [''http://img/a.png'']\<rparr>)"
  using get_img_cases[OF refl refl, where net = net_down and url = "''http://img/a.png''"
          and s = world0]
        get_img_cases[OF refl refl, where net = net_ok and url = "''http://img/a.png''"
          and s = world0 and b = "ImageBody example_picture"]
        get_img_cases[OF refl refl, where net = net_404_then_500 and url = "''http://img/a.png''"
          and s = world0 and st = 404 and b = "OtherBody ''Not Found''" and ?st2.0 = 500
          and ?b2.0 = "OtherBody ''Oops''"]
        get_img_cases[OF refl refl, where net = net_404_then_down and url = "''http://img/a.png''"
          and s = world0 and st = 404 and b = "OtherBody ''Not Found''"]
  by (simp add: net_down_def net_ok_def net_404_then_500_def net_404_then_down_def world0_def)

section \<open>Evaluations of the request handler\<close>

text \<open>
  Claim C9. A successful request for one album on a 1 by 1 grid: the response declares
  the media type \<open>image/png\<close>, while the picture it carries was saved in the format
  \<open>webp\<close> under the name \<open>chart.webp\<close>.
\<close>

theorem content_type_mismatch:
  "(case fst (lastfm_chart example_net ''alice'' ''albums'' ''overall'' 1 1 world0) of
      Inl e \<Rightarrow> False
    | Inr r \<Rightarrow> sr_status_code r = 200 \<and> sr_media_type r = ''image/png''
               \<and> f_format (sr_content r) = ''webp'' \<and> f_name (sr_content r) = ''chart.webp'')"
  by (simp add: lastfm_chart_def has_key_def DATATYPES_def session_get_def api_request_def example_net_def
      example_content_def example_album_def create_chart_def py_take_def world0_def
      py_index_def cached_img_def get_img_def charts_def charts_tile_def image_open_def
      charts_overlay_def album_label_def py_str_def format_plays_def nl_def
      create_graph_def compose_def chunks_def chunks_from.simps finish_def Let_def
      example_picture_def)

text \<open>
  Claim C6. One ranked artist and a listing page without any image cell: the request
  does not complete with a placeholder image, it ends with \<open>IndexError\<close> right after
  the listing page has been fetched.
\<close>

theorem short_scrape_fails:
  "lastfm_chart example_net ''alice'' ''artists'' ''overall'' 1 1 world0
     = (Inl IndexError,
        \<lparr>calls = [api_request ''alice'' ''user.gettopartists'' ''overall'',
                  page_request ''alice'' ''ALL'' 1],
          fetched = []\<rparr>)"
  by (simp add: lastfm_chart_def has_key_def DATATYPES_def session_get_def api_request_def example_net_def
      example_content_def example_artist_def create_chart_def py_take_def world0_def
      py_index_def scrape_artists_for_chart_def ceil_div50_def upto_rec1 period_format_map_def
      page_request_def fetch_text_def find_imagedivs_def Let_def)

text \<open>
  Claim C1. A request for the recent tracks of a user who has none: no grid with zero
  tiles is composed, the request ends with \<open>UnboundLocalError\<close>.
\<close>

theorem no_recent_tracks_fails:
  "lastfm_chart example_net ''alice'' ''recenttracks'' ''overall'' 3 3 world0
     = (Inl UnboundLocalError,
        \<lparr>calls = [api_request ''alice'' ''user.getrecenttracks'' ''overall''], fetched = []\<rparr>)"
  by (simp add: lastfm_chart_def has_key_def DATATYPES_def session_get_def api_request_def example_net_def
      example_content_def create_chart_def py_take_def world0_def Let_def)

section \<open>Artist artwork resolver\<close>








section \<open>Tiles on the canvas\<close>

lemma concat_chunks_from: "0 < n \<Longrightarrow> concat (chunks_from l n) = l"
proof (induction l n rule: chunks_from.induct)
  case (1 l n)
  show ?case
  proof (cases "l = []")
    case True
    then show ?thesis by (simp add: chunks_from.simps)
  next
    case False
    with 1 have "concat (chunks_from (drop n l) n) = drop n l" by simp
    with False 1(2) show ?thesis by (subst chunks_from.simps) simp
  qed
qed

lemma row_loop_tiles:
  "map p_tile (fst (row_loop chunked y (final, x, w, h))) = map p_tile final @ chunked"
  by (induction chunked arbitrary: final x w h) (simp_all add: Let_def)

lemma grid_loop_tiles:
  "map p_tile (fst (grid_loop images (final, y, w, h))) = map p_tile final @ concat images"
proof (induction images arbitrary: final y w h)
  case Nil
  then show ?case by simp
next
  case (Cons chunked images)
  obtain final' x' w' h' where r: "row_loop chunked y (final, 0, w, h) = (final', x', w', h')"
    by (cases "row_loop chunked y (final, 0, w, h)") auto
  from row_loop_tiles[of chunked y final 0 w h] r
  have "map p_tile final' = map p_tile final @ chunked" by simp
  with Cons.IH[of final' "y + 300" w' h'] r show ?case by simp
qed

lemma compose_tiles:
  assumes "compose data w h = Inr final"
  shows "0 < w \<and> 0 \<le> h \<and> map p_tile (cv_pastes final) = data"
proof -
  from assms have w: "0 < w" and h: "0 \<le> h"
    by (auto simp: compose_def chunks_def Let_def split: if_splits)
  obtain fin y w' h' where g: "grid_loop (chunks_from data (nat w)) ([], 0, w, h) = (fin, y, w', h')"
    by (cases "grid_loop (chunks_from data (nat w)) ([], 0, w, h)") auto
  from grid_loop_tiles[of "chunks_from data (nat w)" "[]" 0 w h] g w
  have "map p_tile fin = data" by (simp add: concat_chunks_from)
  moreover from assms w h g have "cv_pastes final = fin"
    by (auto simp: compose_def chunks_def Let_def split: if_splits)
  ultimately show ?thesis using w h by simp
qed

lemma create_graph_tiles:
  assumes "create_graph data w h = Inr file"
  shows "0 < w \<and> 0 < h \<and> map p_tile (f_pastes file) = data"
proof -
  from assms obtain final where c: "compose data w h = Inr final" and f: "finish final = Inr file"
    by (auto simp: create_graph_def split: sum.splits)
  from c have sz: "cv_size final = (300 * w, 300 * h)"
    by (auto simp: compose_def Let_def split: if_splits sum.splits prod.splits)
  from f have p: "f_pastes file = cv_pastes final" and nz: "snd (cv_size final) \<noteq> 0"
    by (auto simp: finish_def Let_def split: if_splits)
  from compose_tiles[OF c] p sz nz show ?thesis by auto
qed

lemma render_loop_tiles:
  "render_loop f data imgs = Inr tiles \<Longrightarrow>
     \<exists>ts. tiles = imgs @ ts \<and> map f data = map Inr ts"
proof (induction data arbitrary: imgs)
  case Nil
  then show ?case by simp
next
  case (Cons item data)
  then obtain t where t: "f item = Inr t" and r: "render_loop f data (imgs @ [t]) = Inr tiles"
    by (auto split: sum.splits)
  from Cons.IH[OF r] obtain ts where "tiles = (imgs @ [t]) @ ts" and "map f data = map Inr ts"
    by blast
  with t show ?case by (intro exI[of _ "t # ts"]) simp
qed

lemma charts_tile_image:
  "charts_tile item = Inr t \<Longrightarrow> image_open (snd item) = Inr (t_image t)"
  by (auto simp: charts_tile_def split: sum.splits prod.splits)

lemma track_tile_image:
  "track_tile item = Inr t \<Longrightarrow> image_open (snd item) = Inr (t_image t)"
  by (auto simp: track_tile_def split: sum.splits prod.splits)

lemma rendered_pastes:
  assumes img: "\<And>item t. f item = Inr t \<Longrightarrow> image_open (snd item) = Inr (t_image t)"
    and r: "render_loop f data [] = Inr tiles"
    and g: "create_graph tiles w h = Inr file"
  shows "0 < w \<and> 0 < h \<and> length (f_pastes file) = length data
       \<and> (\<forall>i<length data. image_open (snd (data ! i)) = Inr (t_image (p_tile (f_pastes file ! i))))"
proof -
  from render_loop_tiles[OF r] have m: "map f data = map Inr tiles" by simp
  then have len: "length data = length tiles" by (metis length_map)
  from create_graph_tiles[OF g] have w: "0 < w" and h: "0 < h"
    and p: "map p_tile (f_pastes file) = tiles" by simp_all
  from p have lp: "length (f_pastes file) = length tiles" by (metis length_map)
  have "\<forall>i<length data. image_open (snd (data ! i)) = Inr (t_image (p_tile (f_pastes file ! i)))"
  proof (intro allI impI)
    fix i assume i: "i < length data"
    with m have "f (data ! i) = Inr (tiles ! i)" by (metis len nth_map)
    from img[OF this] have "image_open (snd (data ! i)) = Inr (t_image (tiles ! i))" .
    moreover from p i len lp have "tiles ! i = p_tile (f_pastes file ! i)" by (metis nth_map)
    ultimately show "image_open (snd (data ! i)) = Inr (t_image (p_tile (f_pastes file ! i)))"
      by simp
  qed
  with w h len lp show ?thesis by simp
qed

lemma charts_pastes:
  "charts data w h = Inr file \<Longrightarrow>
     0 < w \<and> 0 < h \<and> length (f_pastes file) = length data
       \<and> (\<forall>i<length data. image_open (snd (data ! i)) = Inr (t_image (p_tile (f_pastes file ! i))))"
proof -
  assume a: "charts data w h = Inr file"
  then obtain tiles where r: "render_loop charts_tile data [] = Inr tiles"
    and g: "create_graph tiles w h = Inr file"
    by (auto simp: charts_def split: sum.splits)
  show ?thesis by (rule rendered_pastes[OF charts_tile_image r g])
qed

lemma gen_track_chart_pastes:
  "gen_track_chart data w h = Inr file \<Longrightarrow>
     0 < w \<and> 0 < h \<and> length (f_pastes file) = length data
       \<and> (\<forall>i<length data. image_open (snd (data ! i)) = Inr (t_image (p_tile (f_pastes file ! i))))"
proof -
  assume a: "gen_track_chart data w h = Inr file"
  then obtain tiles where r: "render_loop track_tile data [] = Inr tiles"
    and g: "create_graph tiles w h = Inr file"
    by (auto simp: gen_track_chart_def split: sum.splits)
  show ?thesis by (rule rendered_pastes[OF track_tile_image r g])
qed

section \<open>The request-scoped cache\<close>

lemma fetched_once_Nil: "fetched_once cd s [] cd s"
  by (simp add: fetched_once_def)

lemma cached_img_step:
  assumes "cached_img net ref cd s = (Inr (img, cd1), s1)"
  shows "cd1 = cd(ref \<mapsto> img) \<and> cd \<subseteq>\<^sub>m cd1
       \<and> fetched s1 = fetched s @ (if ref \<in> dom cd then [] else [ref])"
proof (cases "cd ref")
  case None
  with assms obtain r where g: "get_img net ref s = (Inr img, s1)" and c: "cd1 = cd(ref \<mapsto> img)"
    by (auto simp: cached_img_def split: prod.splits sum.splits)
  from get_img_world[OF g] have "fetched s1 = fetched s @ [ref]" by simp
  with None c show ?thesis by (auto simp: map_le_def)
next
  case (Some v)
  with assms have "img = v" "cd1 = cd" "s1 = s" by (auto simp: cached_img_def)
  with Some show ?thesis by (auto simp: map_le_def)
qed

lemma fetched_once_Cons:
  assumes c: "cached_img net ref cd s = (Inr (img, cd1), s1)"
    and r: "fetched_once cd1 s1 refs cd' s'"
  shows "fetched_once cd s (ref # refs) cd' s' \<and> cd' ref = Some img"
proof -
  from cached_img_step[OF c] have cd1: "cd1 = cd(ref \<mapsto> img)" by blast
  from cached_img_step[OF c] have le: "cd \<subseteq>\<^sub>m cd1" by blast
  from cached_img_step[OF c]
  have f1: "fetched s1 = fetched s @ (if ref \<in> dom cd then [] else [ref])" by blast
  from r obtain fs where le': "cd1 \<subseteq>\<^sub>m cd'" and d: "dom cd' = dom cd1 \<union> set refs"
    and f: "fetched s' = fetched s1 @ fs" and dis: "distinct fs"
    and st: "set fs = set refs - dom cd1"
    by (auto simp: fetched_once_def)
  have dom1: "dom cd1 = insert ref (dom cd)" using cd1 by simp
  from le le' have a: "cd \<subseteq>\<^sub>m cd'" by (rule map_le_trans)
  from d dom1 have b: "dom cd' = dom cd \<union> set (ref # refs)" by auto
  let ?fs = "(if ref \<in> dom cd then [] else [ref]) @ fs"
  have c1: "fetched s' = fetched s @ ?fs" using f f1 by simp
  have c2: "distinct ?fs" using dis st dom1 by auto
  have c3: "set ?fs = set (ref # refs) - dom cd" using st dom1 by auto
  have "cd1 ref = Some img" using cd1 by simp
  with le' have e: "cd' ref = Some img" by (metis domI map_le_def)
  from a b c1 c2 c3 e show ?thesis unfolding fetched_once_def by blast
qed

lemma albums_loop_run:
  "albums_loop net albums chart cd s = (Inr chart', s') \<Longrightarrow>
     \<exists>cd'. fetched_once cd s (map (\<lambda>album. al_image album ! 3) albums) cd' s'
          \<and> chart' = chart @ map (\<lambda>album. (album_label album, the (cd' (al_image album ! 3)))) albums"
proof (induction albums arbitrary: chart cd s)
  case Nil
  then show ?case by (auto intro: fetched_once_Nil)
next
  case (Cons a albums)
  from Cons.prems obtain img cd1 s1 where i: "3 < length (al_image a)"
    and c: "cached_img net (al_image a ! 3) cd s = (Inr (img, cd1), s1)"
    and l: "albums_loop net albums (chart @ [(album_label a, img)]) cd1 s1 = (Inr chart', s')"
    by (auto simp: py_index_def split: if_splits sum.splits prod.splits)
  from Cons.IH[OF l] obtain cd' where
    f: "fetched_once cd1 s1 (map (\<lambda>album. al_image album ! 3) albums) cd' s'"
    and ch: "chart' = (chart @ [(album_label a, img)])
                @ map (\<lambda>album. (album_label album, the (cd' (al_image album ! 3)))) albums"
    by blast
  from fetched_once_Cons[OF c f] ch show ?case by (intro exI[of _ cd']) simp
qed

lemma artists_loop_run:
  "artists_loop net scraped i iterator chart cd s = (Inr chart', s') \<Longrightarrow>
     length iterator \<le> length scraped - i \<and>
     (\<exists>cd'. fetched_once cd s (take (length iterator) (drop i scraped)) cd' s'
          \<and> chart' = chart @ map (\<lambda>(artist, ref). (artist_label artist, the (cd' ref)))
                                (zip iterator (drop i scraped)))"
proof (induction iterator arbitrary: i chart cd s)
  case Nil
  then show ?case by (auto intro: fetched_once_Nil)
next
  case (Cons a iterator)
  from Cons.prems obtain img cd1 s1 where i: "i < length scraped"
    and c: "cached_img net (scraped ! i) cd s = (Inr (img, cd1), s1)"
    and l: "artists_loop net scraped (Suc i) iterator (chart @ [(artist_label a, img)]) cd1 s1
              = (Inr chart', s')"
    by (auto simp: py_index_def split: if_splits sum.splits prod.splits)
  from Cons.IH[OF l] obtain cd' where len: "length iterator \<le> length scraped - Suc i"
    and f: "fetched_once cd1 s1 (take (length iterator) (drop (Suc i) scraped)) cd' s'"
    and ch: "chart' = (chart @ [(artist_label a, img)])
                @ map (\<lambda>(artist, ref). (artist_label artist, the (cd' ref)))
                    (zip iterator (drop (Suc i) scraped))"
    by blast
  from i have d: "drop i scraped = scraped ! i # drop (Suc i) scraped"
    by (simp add: Cons_nth_drop_Suc)
  from i len have len': "length (a # iterator) \<le> length scraped - i" by simp
  from fetched_once_Cons[OF c f] ch d show ?case
    by (intro conjI exI[of _ cd'] len') simp_all
qed

lemma tracks_loop_run:
  "tracks_loop net w h tracks chart cd img s = (Inr r, s') \<Longrightarrow>
     \<exists>cd' chart'. fetched_once cd s (map (\<lambda>track. tr_image track ! 3) tracks) cd' s'
          \<and> chart' = chart @ map (\<lambda>track. (track_label track, the (cd' (tr_image track ! 3)))) tracks
          \<and> (if tracks = [] then r = img else \<exists>file. r = Some file \<and> gen_track_chart chart' w h = Inr file)"
proof (induction tracks arbitrary: chart cd img s)
  case Nil
  then show ?case by (auto intro: fetched_once_Nil)
next
  case (Cons t tracks)
  let ?lab = "\<lambda>cd' track. (track_label track, the (cd' (tr_image track ! 3)))"
  from Cons.prems obtain im cd1 s1 file1 where i: "3 < length (tr_image t)"
    and c: "cached_img net (tr_image t ! 3) cd s = (Inr (im, cd1), s1)"
    and g: "gen_track_chart (chart @ [(track_label t, im)]) w h = Inr file1"
    and l: "tracks_loop net w h tracks (chart @ [(track_label t, im)]) cd1 (Some file1) s1
              = (Inr r, s')"
    by (auto simp: py_index_def Let_def split: if_splits sum.splits prod.splits)
  from Cons.IH[OF l] obtain cd' chart' where
    f: "fetched_once cd1 s1 (map (\<lambda>track. tr_image track ! 3) tracks) cd' s'"
    and ch: "chart' = (chart @ [(track_label t, im)]) @ map (?lab cd') tracks"
    and res: "if tracks = [] then r = Some file1
              else \<exists>file. r = Some file \<and> gen_track_chart chart' w h = Inr file"
    by blast
  from fetched_once_Cons[OF c f] have f': "fetched_once cd s (map (\<lambda>track. tr_image track ! 3) (t # tracks)) cd' s'"
    and e: "cd' (tr_image t ! 3) = Some im" by simp_all
  from ch e have ch': "chart' = chart @ map (?lab cd') (t # tracks)" by simp
  have "\<exists>file. r = Some file \<and> gen_track_chart chart' w h = Inr file"
  proof (cases "tracks = []")
    case True
    with res g ch show ?thesis by simp
  next
    case False
    with res show ?thesis by simp
  qed
  with f' ch' show ?case by (intro exI[of _ cd'] exI[of _ chart']) simp
qed












section \<open>Completed charts\<close>

text \<open>
  What a run of \<open>create_chart\<close> that completes has drawn: one tile for each of the first
  \<open>width * height\<close> items, named after the labels in rank order, the tile of rank \<open>i\<close>
  at column \<open>i mod width\<close> and row \<open>i div width\<close> of a grid of cells of 300 pixels.
\<close>

lemma charts_tile_name: "charts_tile item = Inr t \<Longrightarrow> t_name t = fst item @ ''.png''"
  by (auto simp: charts_tile_def split: sum.splits prod.splits)

lemma track_tile_name: "track_tile item = Inr t \<Longrightarrow> t_name t = fst item @ ''.png''"
  by (auto simp: track_tile_def split: sum.splits prod.splits)

lemma rendered_names:
  assumes nm: "\<And>item t. f item = Inr t \<Longrightarrow> t_name t = fst item @ ''.png''"
    and r: "render_loop f data [] = Inr tiles"
    and g: "create_graph tiles w h = Inr fl"
  shows "map (t_name \<circ> p_tile) (f_pastes fl) = map (\<lambda>item. fst item @ ''.png'') data"
proof -
  from render_loop_tiles[OF r] have m: "map f data = map Inr tiles" by simp
  then have len: "length data = length tiles" by (metis length_map)
  from create_graph_tiles[OF g] have p: "map p_tile (f_pastes fl) = tiles" by simp
  have "map t_name tiles = map (\<lambda>item. fst item @ ''.png'') data"
  proof (rule nth_equalityI)
    show "length (map t_name tiles) = length (map (\<lambda>item. fst item @ ''.png'') data)"
      using len by simp
  next
    fix i assume "i < length (map t_name tiles)"
    then have i: "i < length data" using len by simp
    with m have "f (data ! i) = Inr (tiles ! i)" by (metis len nth_map)
    from nm[OF this] i len show "map t_name tiles ! i = map (\<lambda>item. fst item @ ''.png'') data ! i"
      by simp
  qed
  with p show ?thesis by (metis map_map)
qed

lemma charts_names:
  assumes "charts data w h = Inr fl"
  shows "map (t_name \<circ> p_tile) (f_pastes fl) = map (\<lambda>item. fst item @ ''.png'') data"
proof -
  from assms obtain tiles where r: "render_loop charts_tile data [] = Inr tiles"
    and g: "create_graph tiles w h = Inr fl"
    by (auto simp: charts_def split: sum.splits)
  show ?thesis by (rule rendered_names[OF charts_tile_name r g])
qed

lemma gen_track_chart_names:
  assumes "gen_track_chart data w h = Inr fl"
  shows "map (t_name \<circ> p_tile) (f_pastes fl) = map (\<lambda>item. fst item @ ''.png'') data"
proof -
  from assms obtain tiles where r: "render_loop track_tile data [] = Inr tiles"
    and g: "create_graph tiles w h = Inr fl"
    by (auto simp: gen_track_chart_def split: sum.splits)
  show ?thesis by (rule rendered_names[OF track_tile_name r g])
qed

lemma names_of_labels:
  "map fst chart = labels \<Longrightarrow>
     map (\<lambda>item. fst item @ sfx) chart = map (\<lambda>label. label @ sfx) labels"
  by (auto simp: comp_def)

lemma map_fst_zip_le: "length xs \<le> length ys \<Longrightarrow> map fst (zip xs ys) = xs"
  by (induction xs arbitrary: ys) (auto simp: Suc_le_length_iff)

lemma py_take_nonneg: "0 \<le> n \<Longrightarrow> py_take n xs = take (nat n) xs"
  by (simp add: py_take_def)

lemma completed_chart_rank_order:
  assumes run: "create_chart net data method height width period username s = (Inr fl, s')"
  shows "0 < width \<and> 0 < height
       \<and> map (t_name \<circ> p_tile) (f_pastes fl)
           = map (\<lambda>label. label @ ''.png'') (take (nat (width * height)) (item_labels data method))
       \<and> length (f_pastes fl) = min (length (item_labels data method)) (nat (width * height))"
proof -
  let ?n = "nat (width * height)"
  have main: "0 < width \<and> 0 < height
       \<and> map (t_name \<circ> p_tile) (f_pastes fl)
           = map (\<lambda>label. label @ ''.png'') (take ?n (item_labels data method))"
  proof -
    consider (albums) "method = ''user.gettopalbums''"
      | (artists) "method \<noteq> ''user.gettopalbums''" "method = ''user.gettopartists''"
      | (tracks) "method \<noteq> ''user.gettopalbums''" "method \<noteq> ''user.gettopartists''"
          "method = ''user.getrecenttracks''"
      | (other) "method \<noteq> ''user.gettopalbums''" "method \<noteq> ''user.gettopartists''"
          "method \<noteq> ''user.getrecenttracks''"
      by blast
    then show ?thesis
    proof cases
      case albums
      with run obtain albs chart where a: "c_topalbums data = Some albs"
        and l: "albums_loop net (py_take (width * height) albs) [] Map.empty s = (Inr chart, s')"
        and c: "charts chart width height = Inr fl"
        by (auto simp: create_chart_def split: option.splits sum.splits prod.splits)
      from charts_pastes[OF c] have w: "0 < width" and h: "0 < height" by simp_all
      then have t: "py_take (width * height) albs = take ?n albs" by (simp add: py_take_nonneg)
      from albums_loop_run[OF l] have "map fst chart = map album_label (take ?n albs)"
        unfolding t by (auto simp: comp_def)
      then have "map (\<lambda>item. fst item @ ''.png'') chart
          = map (\<lambda>label. label @ ''.png'') (map album_label (take ?n albs))"
        by (rule names_of_labels)
      with charts_names[OF c] albums a w h show ?thesis
        by (simp add: item_labels_def take_map)
    next
      case artists
      with run obtain arts scraped s1 chart where a: "c_topartists data = Some arts"
        and l: "artists_loop net scraped 0 (py_take (width * height) arts) [] Map.empty s1
                  = (Inr chart, s')"
        and c: "charts chart width height = Inr fl"
        by (auto simp: create_chart_def split: option.splits sum.splits prod.splits)
      from charts_pastes[OF c] have w: "0 < width" and h: "0 < height" by simp_all
      then have t: "py_take (width * height) arts = take ?n arts" by (simp add: py_take_nonneg)
      from artists_loop_run[OF l] obtain cd' where le: "length (take ?n arts) \<le> length scraped"
        and ch: "chart = map (\<lambda>(artist, ref). (artist_label artist, the (cd' ref)))
                           (zip (take ?n arts) scraped)"
        unfolding t by auto
      have "map fst chart = map artist_label (map fst (zip (take ?n arts) scraped))"
        unfolding ch by (simp add: comp_def case_prod_unfold)
      also have "map fst (zip (take ?n arts) scraped) = take ?n arts"
        by (rule map_fst_zip_le[OF le])
      finally have "map fst chart = map artist_label (take ?n arts)" .
      then have "map (\<lambda>item. fst item @ ''.png'') chart
          = map (\<lambda>label. label @ ''.png'') (map artist_label (take ?n arts))"
        by (rule names_of_labels)
      with charts_names[OF c] artists a w h show ?thesis
        by (simp add: item_labels_def take_map)
    next
      case tracks
      with run obtain tr where a: "c_recenttracks data = Some tr"
        by (auto simp: create_chart_def split: option.splits)
      define ts where "ts = (case tr of TrackDict t \<Rightarrow> [t] | TrackList ts \<Rightarrow> ts)"
      from tracks a run
      have l: "tracks_loop net width height (py_take (width * height) ts) [] Map.empty None s
                 = (Inr (Some fl), s')"
        by (auto simp: create_chart_def ts_def Let_def split: option.splits sum.splits prod.splits)
      from tracks_loop_run[OF l] obtain cd' chart where
        ch: "chart = map (\<lambda>track. (track_label track, the (cd' (tr_image track ! 3))))
                        (py_take (width * height) ts)"
        and res: "if py_take (width * height) ts = [] then Some fl = None
                else \<exists>file'. Some fl = Some file' \<and> gen_track_chart chart width height = Inr file'"
        by auto
      from res have c: "gen_track_chart chart width height = Inr fl"
        by (auto split: if_splits)
      from gen_track_chart_pastes[OF c] have w: "0 < width" and h: "0 < height" by simp_all
      then have t: "py_take (width * height) ts = take ?n ts" by (simp add: py_take_nonneg)
      from ch have "map fst chart = map track_label (take ?n ts)"
        unfolding t by (simp add: comp_def)
      then have "map (\<lambda>item. fst item @ ''.png'') chart
          = map (\<lambda>label. label @ ''.png'') (map track_label (take ?n ts))"
        by (rule names_of_labels)
      moreover from tracks a have "item_labels data method = map track_label ts"
        by (auto simp: item_labels_def ts_def split: tracks.splits)
      ultimately show ?thesis using gen_track_chart_names[OF c] w h
        by (simp add: take_map)
    next
      case other
      with run show ?thesis by (simp add: create_chart_def)
    qed
  qed
  then have "length (map (t_name \<circ> p_tile) (f_pastes fl))
      = length (map (\<lambda>label. label @ ''.png'') (take ?n (item_labels data method)))"
    by simp
  then have "length (f_pastes fl) = min (length (item_labels data method)) ?n"
    by simp
  with main show ?thesis by simp
qed

text \<open>
  A run for the artists metric never completes when the scrape has delivered fewer
  URLs than there are artists to draw.
\<close>

lemma short_scrape_never_completes:
  assumes "c_topartists data = Some artists"
    and "scrape_artists_for_chart net username period (width * height) s = (Inr scraped, s1)"
    and "length scraped < length (py_take (width * height) artists)"
  shows "\<exists>e s'. create_chart net data ''user.gettopartists'' height width period username s
           = (Inl e, s')"
proof -
  obtain r s' where l: "artists_loop net scraped 0 (py_take (width * height) artists) []
      Map.empty s1 = (r, s')"
    by (cases "artists_loop net scraped 0 (py_take (width * height) artists) [] Map.empty s1")
  show ?thesis
  proof (cases r)
    case (Inl e)
    with assms l show ?thesis by (simp add: create_chart_def)
  next
    case (Inr chart)
    with l artists_loop_run[of net scraped 0 "py_take (width * height) artists" "[]" Map.empty s1 chart s']
    have "length (py_take (width * height) artists) \<le> length scraped" by simp
    with assms(3) show ?thesis by simp
  qed
qed

lemma row_loop_pastes:
  "fst (row_loop chunked y (final, x, w, h))
     = final @ map (\<lambda>j. tile_at (x + 300 * int j) y (chunked ! j)) [0..<length chunked]"
proof (induction chunked arbitrary: final x w h)
  case Nil
  then show ?case by simp
next
  case (Cons t chunked)
  have "map (\<lambda>j. tile_at (x + 300 * int j) y ((t # chunked) ! j)) [0..<length (t # chunked)]
      = tile_at x y t # map (\<lambda>j. tile_at (x + 300 + 300 * int j) y (chunked ! j)) [0..<length chunked]"
    by (simp add: upt_conv_Cons map_Suc_upt[symmetric] algebra_simps del: upt_Suc)
  with Cons.IH show ?case by (simp add: Let_def tile_at_def)
qed

lemma grid_loop_pastes:
  "0 < n \<Longrightarrow>
   fst (grid_loop (chunks_from data n) (final, y, w, h))
     = final @ map (\<lambda>i. tile_at (300 * int (i mod n)) (y + 300 * int (i div n)) (data ! i))
                 [0..<length data]"
proof (induction data n arbitrary: final y w h rule: chunks_from.induct)
  case (1 l n)
  show ?case
  proof (cases "l = []")
    case True
    then show ?thesis by (simp add: chunks_from.simps)
  next
    case False
    let ?F = "\<lambda>y i. tile_at (300 * int (i mod n)) (y + 300 * int (i div n))"
    let ?A = "map (\<lambda>j. tile_at (0 + 300 * int j) y (take n l ! j)) [0..<length (take n l)]"
    let ?B = "map (\<lambda>i. ?F (y + 300) i (drop n l ! i)) [0..<length (drop n l)]"
    obtain final' x' w' h' where r: "row_loop (take n l) y (final, 0, w, h) = (final', x', w', h')"
      by (cases "row_loop (take n l) y (final, 0, w, h)") auto
    from row_loop_pastes[of "take n l" y final 0 w h] r
    have f': "final' = final @ ?A" by simp
    from False 1(2)
    have "fst (grid_loop (chunks_from l n) (final, y, w, h))
        = fst (grid_loop (chunks_from (drop n l) n) (final', y + 300, w', h'))"
      by (subst chunks_from.simps) (simp add: r)
    also from 1(1)[of final' "y + 300" w' h'] False 1(2)
    have "\<dots> = final' @ ?B" by simp
    finally have g: "fst (grid_loop (chunks_from l n) (final, y, w, h)) = final @ ?A @ ?B"
      using f' by simp
    have "?A @ ?B = map (\<lambda>i. ?F y i (l ! i)) [0..<length l]"
    proof (rule nth_equalityI)
      show "length (?A @ ?B) = length (map (\<lambda>i. ?F y i (l ! i)) [0..<length l])"
        by simp
    next
      fix i assume "i < length (?A @ ?B)"
      then have i: "i < length l" by simp
      show "(?A @ ?B) ! i = map (\<lambda>i. ?F y i (l ! i)) [0..<length l] ! i"
      proof (cases "i < n")
        case True
        with i have "(?A @ ?B) ! i = ?A ! i" by (simp add: nth_append)
        also from True i have "\<dots> = tile_at (300 * int i) y (l ! i)" by simp
        also from True i have "\<dots> = map (\<lambda>i. ?F y i (l ! i)) [0..<length l] ! i" by simp
        finally show ?thesis .
      next
        case False
        then have ge: "n \<le> i" by simp
        with i have "(?A @ ?B) ! i = ?B ! (i - n)" by (simp add: nth_append min_def)
        also from ge i have "\<dots> = ?F (y + 300) (i - n) (l ! i)" by simp
        also from ge 1(2) have "\<dots> = ?F y i (l ! i)"
          by (simp add: le_mod_geq le_div_geq algebra_simps)
        also from i have "\<dots> = map (\<lambda>i. ?F y i (l ! i)) [0..<length l] ! i" by simp
        finally show ?thesis .
      qed
    qed
    with g show ?thesis by simp
  qed
qed

lemma compose_row_major:
  assumes "compose data w h = Inr final"
  shows "cv_pastes final
           = map (\<lambda>i. tile_at (300 * (int i mod w)) (300 * (int i div w)) (data ! i))
               [0..<length data]"
proof -
  from assms have w: "0 < w"
    by (auto simp: compose_def chunks_def Let_def split: if_splits)
  obtain fin y w' h' where g: "grid_loop (chunks_from data (nat w)) ([], 0, w, h) = (fin, y, w', h')"
    by (cases "grid_loop (chunks_from data (nat w)) ([], 0, w, h)") auto
  from assms w g have c: "cv_pastes final = fin"
    by (auto simp: compose_def chunks_def Let_def split: if_splits)
  from w have n: "0 < nat w" by simp
  from grid_loop_pastes[OF n, of data "[]" 0 w h] g
  have "fin = map (\<lambda>i. tile_at (300 * int (i mod nat w)) (0 + 300 * int (i div nat w)) (data ! i))
               [0..<length data]" by simp
  moreover from w have "\<And>i. int (i mod nat w) = int i mod w" "\<And>i. int (i div nat w) = int i div w"
    by (simp_all add: zmod_int zdiv_int)
  ultimately show ?thesis using c by simp
qed

lemma create_graph_row_major:
  assumes "create_graph data w h = Inr fl"
  shows "f_pastes fl
           = map (\<lambda>i. tile_at (300 * (int i mod w)) (300 * (int i div w)) (data ! i))
               [0..<length data]"
proof -
  from assms obtain final where c: "compose data w h = Inr final" and f: "finish final = Inr fl"
    by (auto simp: create_graph_def split: sum.splits)
  from f have "f_pastes fl = cv_pastes final"
    by (auto simp: finish_def Let_def split: if_splits)
  with compose_row_major[OF c] show ?thesis by simp
qed

lemma create_chart_graph:
  assumes run: "create_chart net data method height width period username s = (Inr fl, s')"
  shows "\<exists>tiles. create_graph tiles width height = Inr fl"
proof -
  have "(\<exists>chart. charts chart width height = Inr fl)
      \<or> (\<exists>chart. gen_track_chart chart width height = Inr fl)"
  proof (cases "method = ''user.getrecenttracks''")
    case False
    with run show ?thesis
      by (auto simp: create_chart_def split: if_splits option.splits sum.splits prod.splits)
  next
    case True
    with run obtain items where
      l: "tracks_loop net width height items [] Map.empty None s = (Inr (Some fl), s')"
      by (auto simp: create_chart_def Let_def split: option.splits sum.splits prod.splits)
    from tracks_loop_run[OF l] show ?thesis by (auto split: if_splits)
  qed
  then show ?thesis
  proof
    assume "\<exists>chart. charts chart width height = Inr fl"
    then obtain chart where c: "charts chart width height = Inr fl" by blast
    show ?thesis
    proof (cases "render_loop charts_tile chart []")
      case (Inl e)
      with c show ?thesis by (simp add: charts_def)
    next
      case (Inr tiles)
      with c show ?thesis by (auto simp: charts_def)
    qed
  next
    assume "\<exists>chart. gen_track_chart chart width height = Inr fl"
    then obtain chart where c: "gen_track_chart chart width height = Inr fl" by blast
    show ?thesis
    proof (cases "render_loop track_tile chart []")
      case (Inl e)
      with c show ?thesis by (simp add: gen_track_chart_def)
    next
      case (Inr tiles)
      with c show ?thesis by (auto simp: gen_track_chart_def)
    qed
  qed
qed

lemma completed_chart_row_major:
  assumes run: "create_chart net data method height width period username s = (Inr fl, s')"
    and i: "i < length (f_pastes fl)"
  shows "\<exists>x1 y1. p_box (f_pastes fl ! i) = (300 * (int i mod width), 300 * (int i div width), x1, y1)"
proof -
  from create_chart_graph[OF run] obtain tiles where g: "create_graph tiles width height = Inr fl"
    by blast
  note p = create_graph_row_major[OF g]
  from p i have "i < length tiles" by simp
  with p have "f_pastes fl ! i
      = tile_at (300 * (int i mod width)) (300 * (int i div width)) (tiles ! i)" by simp
  then show ?thesis by (simp add: tile_at_def)
qed

section \<open>Non-positive dimensions\<close>

text \<open>The exceptions raised inside the pipeline; none of them is an \<open>HTTPException\<close>.\<close>

lemma get_img_error: "get_img net url s = (Inl e, s') \<Longrightarrow> e = ClientError"
  by (auto simp: get_img_def session_get_def Let_def split: response.splits if_splits)

lemma cached_img_error: "cached_img net ref cd s = (Inl e, s') \<Longrightarrow> e = ClientError"
  by (auto simp: cached_img_def split: option.splits prod.splits sum.splits dest: get_img_error)

lemma create_graph_error: "create_graph data w h = Inl e \<Longrightarrow> e = ValueError \<or> e = OSError"
  by (auto simp: create_graph_def compose_def chunks_def finish_def Let_def
      split: sum.splits if_splits prod.splits)

lemma render_loop_error:
  "render_loop f data imgs = Inl e \<Longrightarrow> \<exists>item \<in> set data. f item = Inl e"
  by (induction data arbitrary: imgs) (auto split: sum.splits)

lemma charts_error:
  "charts data w h = Inl e \<Longrightarrow>
     e = UnidentifiedImageError \<or> e = IndexError \<or> e = ValueError \<or> e = OSError"
  by (auto simp: charts_def charts_tile_def image_open_def charts_overlay_def
      split: sum.splits payload.splits list.splits if_splits
      dest!: render_loop_error create_graph_error)

lemma gen_track_chart_error:
  "gen_track_chart data w h = Inl e \<Longrightarrow>
     e = UnidentifiedImageError \<or> e = ValueError \<or> e = OSError"
  by (auto simp: gen_track_chart_def track_tile_def image_open_def
      split: sum.splits payload.splits prod.splits
      dest!: render_loop_error create_graph_error)

lemma albums_loop_error:
  "albums_loop net albums chart cd s = (Inl e, s') \<Longrightarrow> e = IndexError \<or> e = ClientError"
proof (induction albums arbitrary: chart cd s)
  case Nil
  then show ?case by simp
next
  case (Cons a albums)
  from Cons.prems show ?case
    by (auto simp: py_index_def split: if_splits sum.splits prod.splits
        dest: cached_img_error Cons.IH)
qed

lemma artists_loop_error:
  "artists_loop net scraped i iterator chart cd s = (Inl e, s') \<Longrightarrow>
     e = IndexError \<or> e = ClientError"
proof (induction iterator arbitrary: i chart cd s)
  case Nil
  then show ?case by simp
next
  case (Cons a iterator)
  from Cons.prems show ?case
    by (auto simp: py_index_def split: if_splits sum.splits prod.splits
        dest: cached_img_error Cons.IH)
qed

lemma tracks_loop_error:
  "tracks_loop net w h tracks chart cd img s = (Inl e, s') \<Longrightarrow>
     e = IndexError \<or> e = ClientError \<or> e = UnidentifiedImageError \<or> e = ValueError
       \<or> e = OSError"
proof (induction tracks arbitrary: chart cd img s)
  case Nil
  then show ?case by simp
next
  case (Cons t tracks)
  from Cons.prems show ?case
    by (auto simp: py_index_def Let_def split: if_splits sum.splits prod.splits
        dest: cached_img_error gen_track_chart_error Cons.IH)
qed

lemma make_tasks_error: "make_tasks username period pages = Inl e \<Longrightarrow> e = KeyError"
  by (induction pages) (auto split: option.splits sum.splits)

lemma gather_error: "gather net tasks s = (Inl e, s') \<Longrightarrow> e = ClientError"
proof (induction tasks arbitrary: s s')
  case Nil
  then show ?case by simp
next
  case (Cons rq tasks)
  from Cons.prems show ?case
    by (auto simp: fetch_text_def session_get_def Let_def
        split: prod.splits sum.splits response.splits dest: Cons.IH)
qed

lemma image_srcs_error: "image_srcs imagedivs = Inl e \<Longrightarrow> e = TypeError"
  by (induction imagedivs rule: image_srcs.induct) (auto split: sum.splits)

lemma collect_error: "collect responses images amount = Inl e \<Longrightarrow> e = TypeError"
  by (induction responses arbitrary: images)
     (auto split: if_splits sum.splits dest: image_srcs_error)

lemma scrape_error:
  "scrape_artists_for_chart net username period amount s = (Inl e, s') \<Longrightarrow>
     e = KeyError \<or> e = ClientError \<or> e = TypeError"
  by (auto simp: scrape_artists_for_chart_def split: sum.splits prod.splits
      dest: make_tasks_error gather_error collect_error)

lemma create_chart_error:
  "create_chart net data method height width period username s = (Inl e, s') \<Longrightarrow>
     e \<noteq> HTTPException st detail"
  by (auto simp: create_chart_def Let_def
      split: if_splits option.splits sum.splits prod.splits
      dest: albums_loop_error artists_loop_error tracks_loop_error scrape_error charts_error)

text \<open>
  Claim C10. Validation looks at the sum of the dimensions and at the metric only. A
  request with a non-positive width or height, a sum of at most 31 and a supported
  metric is not rejected: the GET to the statistics provider is the next call made,
  and when the provider answers with status 200 and a body without error,
  \<open>create_chart\<close> is entered with these dimensions and its outcome is the outcome of the
  request. That outcome is a failure raised inside the pipeline, never an
  \<open>HTTPException\<close>.
\<close>

theorem nonpositive_dimension_not_rejected:
  assumes "width \<le> 0 \<or> height \<le> 0"
    and "height + width \<le> 31"
    and "map_of DATATYPES datatype = Some method"
  shows "(\<exists>rest. calls (snd (lastfm_chart net username datatype period height width s))
              = calls s @ api_request username method period # rest)
       \<and> (net (length (calls s)) (api_request username method period) = Resp 200 (JsonBody content)
            \<and> c_error content = None \<longrightarrow>
          (\<exists>e s2. create_chart net content method height width period username
                     (s\<lparr>calls := calls s @ [api_request username method period]\<rparr>) = (Inl e, s2)
                 \<and> lastfm_chart net username datatype period height width s = (Inl e, s2)
                 \<and> (\<forall>st detail. e \<noteq> HTTPException st detail)))"
proof -
  let ?s1 = "s\<lparr>calls := calls s @ [api_request username method period]\<rparr>"
  have enters: "\<exists>e s2. create_chart net content method height width period username ?s1 = (Inl e, s2)
                 \<and> lastfm_chart net username datatype period height width s = (Inl e, s2)
                 \<and> (\<forall>st detail. e \<noteq> HTTPException st detail)"
    if ok: "net (length (calls s)) (api_request username method period) = Resp 200 (JsonBody content)"
      and noerr: "c_error content = None"
  proof -
    obtain r s2 where cc: "create_chart net content method height width period username ?s1 = (r, s2)"
      by (cases "create_chart net content method height width period username ?s1")
    show ?thesis
    proof (cases r)
      case (Inl e)
      from assms(2,3) ok noerr cc Inl
      have "lastfm_chart net username datatype period height width s = (Inl e, s2)"
        by (simp add: lastfm_chart_def session_get_def has_key_def)
      moreover from cc Inl have "\<forall>st detail. e \<noteq> HTTPException st detail"
        by (auto dest: create_chart_error)
      ultimately show ?thesis using cc Inl by blast
    next
      case (Inr fl)
      with cc
      have run: "create_chart net content method height width period username ?s1 = (Inr fl, s2)"
        by simp
      from completed_chart_rank_order[OF run] have "0 < width \<and> 0 < height" by simp
      with assms(1) show ?thesis by simp
    qed
  qed
  from lastfm_chart_passes[OF assms(2,3)] enters show ?thesis by blast
qed

theorem nonpositive_dimension_not_rejected_witness:
  "lastfm_chart example_net ''alice'' ''albums'' ''overall'' 3 0 world0
     = (Inl ValueError,
        \<lparr>calls = [api_request ''alice'' ''user.gettopalbums'' ''overall''], fetched = []\<rparr>)
   \<and> lastfm_chart example_net ''alice'' ''albums'' ''overall'' (- 1) 2 world0
     = (Inl ValueError,
        \<lparr>calls = [api_request ''alice'' ''user.gettopalbums'' ''overall'', (''http://img/xl.png'', [])],
          fetched = [''http://img/xl.png'']\<rparr>)"
proof -
  let ?api = "api_request ''alice'' ''user.gettopalbums'' ''overall''"
  let ?s1 = "world0\<lparr>calls := calls world0 @ [?api]\<rparr>"
  have m: "map_of DATATYPES ''albums'' = Some ''user.gettopalbums''" by (simp add: DATATYPES_def)
  have ok: "example_net (length (calls world0)) ?api = Resp 200 (JsonBody example_content)
            \<and> c_error example_content = None"
    by (simp add: example_net_def api_request_def example_content_def)
  have w0: "(0::int) \<le> 0 \<or> (3::int) \<le> 0" by simp
  have s0: "(3::int) + 0 \<le> 31" by simp
  have h1: "(2::int) \<le> 0 \<or> (- 1::int) \<le> 0" by simp
  have s1: "(- 1::int) + 2 \<le> 31" by simp
  from nonpositive_dimension_not_rejected[OF w0 s0 m, of example_net "''alice''" "''overall''"
      world0 example_content] ok
  obtain e s2 where
    c: "create_chart example_net example_content ''user.gettopalbums'' 3 0 ''overall'' ''alice'' ?s1
          = (Inl e, s2)"
    and l: "lastfm_chart example_net ''alice'' ''albums'' ''overall'' 3 0 world0 = (Inl e, s2)"
    by blast
  have "create_chart example_net example_content ''user.gettopalbums'' 3 0 ''overall'' ''alice'' ?s1
          = (Inl ValueError, \<lparr>calls = [?api], fetched = []\<rparr>)"
    by (simp add: create_chart_def example_content_def py_take_def charts_def create_graph_def
        compose_def chunks_def world0_def Let_def)
  with c l have a: "lastfm_chart example_net ''alice'' ''albums'' ''overall'' 3 0 world0
     = (Inl ValueError, \<lparr>calls = [?api], fetched = []\<rparr>)" by simp
  from nonpositive_dimension_not_rejected[OF h1 s1 m, of example_net "''alice''" "''overall''"
      world0 example_content] ok
  obtain e' s2' where
    c': "create_chart example_net example_content ''user.gettopalbums'' (- 1) 2 ''overall'' ''alice'' ?s1
          = (Inl e', s2')"
    and l': "lastfm_chart example_net ''alice'' ''albums'' ''overall'' (- 1) 2 world0 = (Inl e', s2')"
    by blast
  have "create_chart example_net example_content ''user.gettopalbums'' (- 1) 2 ''overall'' ''alice'' ?s1
          = (Inl ValueError, \<lparr>calls = [?api, (''http://img/xl.png'', [])],
                               fetched = [''http://img/xl.png'']\<rparr>)"
    by (simp add: create_chart_def example_content_def py_take_def charts_def create_graph_def
        compose_def chunks_def world0_def Let_def example_album_def py_index_def cached_img_def
        get_img_def session_get_def example_net_def api_request_def charts_tile_def image_open_def
        charts_overlay_def album_label_def py_str_def format_plays_def nl_def example_picture_def)
  with c' l' have b: "lastfm_chart example_net ''alice'' ''albums'' ''overall'' (- 1) 2 world0
     = (Inl ValueError, \<lparr>calls = [?api, (''http://img/xl.png'', [])],
                          fetched = [''http://img/xl.png'']\<rparr>)" by simp
  from a b show ?thesis by simp
qed

end
